theory Spec2Isabelle
  imports Complex_Main
begin

section \<open>Data model of \<open>hosp/regression.py\<close>\<close>

text \<open>
  The module \<open>regression.py\<close> drives cross-validation (\<open>validate\<close>), reporting
  (\<open>nowcast_report\<close>, \<open>run_nowcast_experiment\<close>) and prediction (\<open>predict\<close>) on top of
  collaborators that live in other modules: the calendar (\<open>hosp_utils\<close>), the feature
  layer (\<open>preparation\<close>), the estimators (\<open>ml_utils\<close>), the metrics of scikit-learn and the
  plotting sinks. The collaborators are parameters of the model, collected in the record
  \<open>env\<close>. Calls that can raise return \<open>error + 'a\<close>, with \<open>Inl\<close> for the exception.
  Python floats are idealised as real numbers; only their order is used below.
\<close>

type_synonym epiweek = int
type_synonym location = string
type_synonym group = int

text \<open>A time period is indexable; \<open>time_period[0]\<close> is its first epiweek.\<close>

type_synonym period = "epiweek \<times> epiweek"

type_synonym obs = "real list"
type_synonym data = "(epiweek \<times> group \<times> location) \<rightharpoonup> obs"
type_synonym features = "real list"

text \<open>A fitted estimator is the function its \<open>predict\<close> method computes.\<close>

type_synonym model = "features \<Rightarrow> real"

datatype error = UnboundLocalError | ValueError | KeyError | IndexError

text \<open>
  A cell of a numpy float matrix: minus infinity (the sentinel of the metric matrices), a
  number, or not-a-number.
\<close>

datatype npfloat = NegInf | Fin real | NaN

text \<open>The six estimator classes of \<open>ml_utils\<close> that \<open>train_model\<close> constructs.\<close>

datatype family = QuantLinear | QuantRidge | RegLinear | RegRidge | RegGBDT | QuantGBDT

record env =
  FIRST_YEAR :: int
  YEAR_WINDOW :: int
  PENALTY :: real
  UPPER_QUANT :: real
  MID_QUANT :: real
  LOWER_QUANT :: real
  get_start_year :: "epiweek \<Rightarrow> int"
  get_period :: "int \<Rightarrow> int \<Rightarrow> int \<Rightarrow> period"
  get_max_window :: "epiweek \<Rightarrow> int"
  unravel :: "period \<Rightarrow> epiweek list"
  prepare :: "data \<Rightarrow> location list \<Rightarrow> group list \<Rightarrow> period list \<Rightarrow>
              int \<Rightarrow> int \<Rightarrow> int \<Rightarrow> int \<Rightarrow> error + (features list \<times> real list)"
  fetch :: "data \<Rightarrow> location \<Rightarrow> group \<Rightarrow> epiweek \<Rightarrow>
            int \<Rightarrow> int \<Rightarrow> int \<Rightarrow> int \<Rightarrow> error + (features \<times> real \<times> real)"
  fit :: "family \<Rightarrow> real \<Rightarrow> features list \<Rightarrow> real list \<Rightarrow> error + model"
  cofit :: "family \<Rightarrow> real \<Rightarrow> real \<Rightarrow> real \<Rightarrow> features list \<Rightarrow> real list \<Rightarrow>
            error + (model \<times> model \<times> model)"
  r2_score :: "real list \<Rightarrow> real list \<Rightarrow> error + real"
  mean_squared_error :: "real list \<Rightarrow> real list \<Rightarrow> error + real"
  np_vstack :: "real list list \<Rightarrow> error + real list"
  str_period :: "period \<Rightarrow> string"
  make_dirs :: "string \<Rightarrow> error + unit"
  plot_series :: "string \<Rightarrow> location \<Rightarrow> group \<Rightarrow> int \<Rightarrow> int \<Rightarrow> epiweek list \<Rightarrow>
                  real list \<Rightarrow> real list \<Rightarrow> real list \<Rightarrow> real list \<Rightarrow> real list \<Rightarrow>
                  error + unit"
  plot_results :: "string \<Rightarrow> npfloat list list \<Rightarrow> string \<Rightarrow> location \<Rightarrow> group \<Rightarrow> string \<Rightarrow>
                   error + unit"
  write_data :: "((period \<times> group) \<rightharpoonup> npfloat) \<Rightarrow> string \<Rightarrow> error + unit"

text \<open>
  The fields follow the calls of the source. \<open>fit\<close> constructs an estimator of a family
  for a quantile and fits it; \<open>cofit\<close> is the joint fit of three estimators of a
  co-trained family. \<open>np_vstack\<close> is \<open>np.vstack(...).squeeze()\<close> on a list of cells.
  \<open>make_dirs\<close> creates the report directory of a period and one directory for each state
  of \<open>STATE_LIST\<close>; \<open>plot_series\<close> is the diagnostic plot of \<open>nowcast_report\<close>,
  \<open>plot_results\<close> the heat map of that name, and \<open>write_data\<close> the dump of the summary.
  The calendar functions and the \<open>predict\<close> method of a fitted estimator are taken to
  return normally.
\<close>

section \<open>Loops that an exception can leave\<close>

text \<open>
  A Python \<open>for\<close> loop whose body may raise: the state is threaded through the body, and
  the first exception ends the loop and is the result.
\<close>

fun for_each :: "'a list \<Rightarrow> ('a \<Rightarrow> 's \<Rightarrow> error + 's) \<Rightarrow> 's \<Rightarrow> error + 's" where
  "for_each [] body s = Inr s"
| "for_each (x # xs) body s =
     (case body x s of Inl e \<Rightarrow> Inl e | Inr s' \<Rightarrow> for_each xs body s')"

section \<open>The helper \<open>create_double_list\<close>\<close>

text \<open>
  Modelled from the spec: \<open>create_double_list\<close> of the module \<open>tools\<close>, which is not among
  the sources. It builds a grid with one row per location and one cell per group, every
  cell holding its own copy of the given value.
\<close>

definition create_double_list :: "'a \<Rightarrow> nat \<Rightarrow> nat \<Rightarrow> 'a list list" where
  "create_double_list val len width = replicate len (replicate width val)"

section \<open>\<open>train_model\<close>\<close>

text \<open>
  The branches follow the source. The local variables \<open>model_upper\<close>, \<open>model\<close>,
  \<open>model_lower\<close> are bound only inside a branch of a recognised tag; with any other tag
  the first use of \<open>model_upper\<close> (the call \<open>model_upper.fit(X, Y)\<close>) raises Python's
  \<open>UnboundLocalError\<close>.
\<close>

definition family_of :: "string \<Rightarrow> family option" where
  "family_of model_type =
     (if model_type = ''lin'' then Some RegLinear
      else if model_type = ''ridge'' then Some RegRidge
      else if model_type = ''gbdt'' then Some RegGBDT
      else if model_type = ''quant_gbdt'' then Some QuantGBDT
      else None)"

definition train_model ::
  "env \<Rightarrow> features list \<Rightarrow> real list \<Rightarrow> string \<Rightarrow> error + (model \<times> model \<times> model)" where
  "train_model env X Y model_type =
     (let cotrain = (model_type = ''quant_lin'' \<or> model_type = ''quant_ridge'') in
      if cotrain then
        (if model_type = ''quant_lin'' then
           cofit env QuantLinear (UPPER_QUANT env) (MID_QUANT env) (LOWER_QUANT env) X Y
         else
           cofit env QuantRidge (UPPER_QUANT env) (MID_QUANT env) (LOWER_QUANT env) X Y)
      else
        (case family_of model_type of
           None \<Rightarrow> Inl UnboundLocalError
         | Some fam \<Rightarrow>
             (case fit env fam (UPPER_QUANT env) X Y of
                Inl e \<Rightarrow> Inl e
              | Inr model_upper \<Rightarrow>
                  (case fit env fam (MID_QUANT env) X Y of
                     Inl e \<Rightarrow> Inl e
                   | Inr model \<Rightarrow>
                       (case fit env fam (LOWER_QUANT env) X Y of
                          Inl e \<Rightarrow> Inl e
                        | Inr model_lower \<Rightarrow> Inr (model_upper, model, model_lower))))))"

section \<open>\<open>validate\<close>\<close>

record results =
  valid_weeks :: "epiweek list"
  predictions :: "real list list list"
  predictions_lower :: "real list list list"
  predictions_upper :: "real list list list"
  cur_truth :: "real list list list"
  ground_truth :: "real list list list"

text \<open>\<open>grid[l_idx][g_idx].append(v)\<close>, for indices inside the grid.\<close>

definition append_cell :: "'a list list list \<Rightarrow> nat \<Rightarrow> nat \<Rightarrow> 'a \<Rightarrow> 'a list list list" where
  "append_cell grid l_idx g_idx v = grid[l_idx := (grid ! l_idx)[g_idx := grid ! l_idx ! g_idx @ [v]]]"

text \<open>Python's \<open>range(a, b)\<close> over the integers.\<close>

definition range_int :: "int \<Rightarrow> int \<Rightarrow> int list" where
  "range_int a b = [a..b - 1]"

definition training_periods :: "env \<Rightarrow> string \<Rightarrow> int \<Rightarrow> period list" where
  "training_periods env mode start_year =
     (if mode = ''all'' then
        map (\<lambda>year. get_period env year 40 17) (range_int (FIRST_YEAR env) start_year)
      else if mode = ''prev'' then
        map (\<lambda>year. get_period env year 40 17)
          (range_int (max (FIRST_YEAR env) (start_year - YEAR_WINDOW env)) start_year)
      else [])"

definition validate_cell ::
  "env \<Rightarrow> data \<Rightarrow> model \<times> model \<times> model \<Rightarrow> location list \<Rightarrow> group list \<Rightarrow>
   int \<Rightarrow> int \<Rightarrow> int \<Rightarrow> int \<Rightarrow> epiweek \<Rightarrow> nat \<Rightarrow> nat \<Rightarrow> results \<Rightarrow> error + results" where
  "validate_cell env data models locations groups lag left_window right_window backfill_window
       epiweek l_idx g_idx st =
     (let location = locations ! l_idx; group = groups ! g_idx in
      if (epiweek, group, location) \<in> dom data then
        (case fetch env data location group epiweek lag left_window right_window backfill_window of
           Inl e \<Rightarrow> Inl e
         | Inr (x_val, cur_y_val, y_val) \<Rightarrow>
             (case models of (model_upper, model, model_lower) \<Rightarrow>
                (let pred = model x_val; pred_u = model_upper x_val; pred_l = model_lower x_val in
                 Inr (st\<lparr>predictions := append_cell (predictions st) l_idx g_idx pred,
                         predictions_lower := append_cell (predictions_lower st) l_idx g_idx pred_l,
                         predictions_upper := append_cell (predictions_upper st) l_idx g_idx pred_u,
                         cur_truth := append_cell (cur_truth st) l_idx g_idx cur_y_val,
                         ground_truth := append_cell (ground_truth st) l_idx g_idx y_val\<rparr>))))
      else Inr st)"

definition validate_week ::
  "env \<Rightarrow> data \<Rightarrow> model \<times> model \<times> model \<Rightarrow> location list \<Rightarrow> group list \<Rightarrow>
   int \<Rightarrow> int \<Rightarrow> int \<Rightarrow> int \<Rightarrow> epiweek \<Rightarrow> results \<Rightarrow> error + results" where
  "validate_week env data models locations groups lag left_window right_window backfill_window
       epiweek st =
     for_each [0..<length locations]
       (\<lambda>l_idx. for_each [0..<length groups]
          (\<lambda>g_idx. validate_cell env data models locations groups
                      lag left_window right_window backfill_window epiweek l_idx g_idx))
       (st\<lparr>valid_weeks := valid_weeks st @ [epiweek]\<rparr>)"

definition empty_results :: "nat \<Rightarrow> nat \<Rightarrow> results" where
  "empty_results len width =
     \<lparr>valid_weeks = [],
      predictions = create_double_list [] len width,
      predictions_lower = create_double_list [] len width,
      predictions_upper = create_double_list [] len width,
      cur_truth = create_double_list [] len width,
      ground_truth = create_double_list [] len width\<rparr>"

definition validate ::
  "env \<Rightarrow> data \<Rightarrow> location list \<Rightarrow> group list \<Rightarrow> period \<Rightarrow>
   int \<Rightarrow> int \<Rightarrow> int \<Rightarrow> int \<Rightarrow> string \<Rightarrow> string \<Rightarrow> error + results" where
  "validate env data locations groups time_period lag left_window right_window backfill_window
       mode model_type =
     (let start_year = get_start_year env (fst time_period);
          period = unravel env time_period;
          model_periods = training_periods env mode start_year in
      case prepare env data locations groups model_periods
             lag left_window right_window backfill_window of
        Inl e \<Rightarrow> Inl e
      | Inr (X, Y) \<Rightarrow>
          (case train_model env X Y model_type of
             Inl e \<Rightarrow> Inl e
           | Inr models \<Rightarrow>
               for_each period
                 (validate_week env data models locations groups
                    lag left_window right_window backfill_window)
                 (empty_results (length locations) (length groups))))"

section \<open>\<open>nowcast_report\<close>\<close>

text \<open>\<open>grid[l_idx][g_idx] = v\<close>, for indices inside the grid.\<close>

definition set_cell :: "'a list list \<Rightarrow> nat \<Rightarrow> nat \<Rightarrow> 'a \<Rightarrow> 'a list list" where
  "set_cell grid l_idx g_idx v = grid[l_idx := (grid ! l_idx)[g_idx := v]]"

type_synonym metric_grids = "real option list list \<times> real option list list"

text \<open>
  The body of the loop over \<open>(l_idx, g_idx)\<close>: both metrics, then the diagnostic plot.
  Nothing catches an exception of \<open>metrics.r2_score\<close>, of \<open>metrics.mean_squared_error\<close>
  or of the plot.
\<close>

definition report_cell ::
  "env \<Rightarrow> string \<Rightarrow> location list \<Rightarrow> group list \<Rightarrow> int \<Rightarrow> int \<Rightarrow> results \<Rightarrow>
   nat \<Rightarrow> nat \<Rightarrow> metric_grids \<Rightarrow> error + metric_grids" where
  "report_cell env path locations groups left_window backfill_window res l_idx g_idx st =
     (case st of (rsq, mse) \<Rightarrow>
        (let location = locations ! l_idx; group = groups ! g_idx in
         case r2_score env (ground_truth res ! l_idx ! g_idx) (predictions res ! l_idx ! g_idx) of
           Inl e \<Rightarrow> Inl e
         | Inr r \<Rightarrow>
             (case mean_squared_error env (ground_truth res ! l_idx ! g_idx)
                     (predictions res ! l_idx ! g_idx) of
                Inl e \<Rightarrow> Inl e
              | Inr m \<Rightarrow>
                  (case plot_series env path location group left_window backfill_window
                          (valid_weeks res)
                          (predictions res ! l_idx ! g_idx)
                          (predictions_upper res ! l_idx ! g_idx)
                          (predictions_lower res ! l_idx ! g_idx)
                          (cur_truth res ! l_idx ! g_idx)
                          (ground_truth res ! l_idx ! g_idx) of
                     Inl e \<Rightarrow> Inl e
                   | Inr u \<Rightarrow>
                       Inr (set_cell rsq l_idx g_idx (Some r),
                            set_cell mse l_idx g_idx (Some m))))))"

definition nowcast_report ::
  "env \<Rightarrow> string \<Rightarrow> data \<Rightarrow> location list \<Rightarrow> group list \<Rightarrow> period \<Rightarrow> int \<Rightarrow> int \<Rightarrow>
   string \<Rightarrow> string \<Rightarrow> error + metric_grids" where
  "nowcast_report env path data locations groups time_period left_window backfill_window
       mode model_type =
     (let rsq = create_double_list None (length locations) (length groups);
          mse = create_double_list None (length locations) (length groups) in
      case validate env data locations groups time_period 0 left_window 0 backfill_window
             mode model_type of
        Inl e \<Rightarrow> Inl e
      | Inr res \<Rightarrow>
          for_each [0..<length locations]
            (\<lambda>l_idx. for_each [0..<length groups]
               (report_cell env path locations groups left_window backfill_window res l_idx))
            (rsq, mse))"

section \<open>The metric matrices of \<open>run_nowcast_experiment\<close>\<close>

text \<open>
  The numpy matrices are mutable objects that the experiment writes in place, so they live
  in an explicit store: a heap is the list of the matrices allocated so far, and the
  address of a matrix is its position. Allocation appends.
\<close>

type_synonym matrix = "npfloat list list"
type_synonym addr = nat
type_synonym heap = "matrix list"

text \<open>\<open>np.full((rows, cols), v)\<close>; numpy rejects a negative dimension.\<close>

definition np_full :: "int \<Rightarrow> int \<Rightarrow> npfloat \<Rightarrow> heap \<Rightarrow> error + (addr \<times> heap)" where
  "np_full rows cols v h =
     (if rows < 0 \<or> cols < 0 then Inl ValueError
      else Inr (length h, h @ [replicate (nat rows) (replicate (nat cols) v)]))"

text \<open>
  Modelled from the spec: \<open>create_double_list\<close> of the module \<open>tools\<close> applied to a matrix.
  The template is copied for each entry: every cell of the grid is the address of a
  matrix of its own, allocated with the contents of the template.
\<close>

definition create_double_list_mat :: "addr \<Rightarrow> nat \<Rightarrow> nat \<Rightarrow> heap \<Rightarrow> addr list list \<times> heap" where
  "create_double_list_mat a len width h =
     (map (\<lambda>l. map (\<lambda>g. length h + l * width + g) [0..<width]) [0..<len],
      h @ replicate (len * width) (h ! a))"

text \<open>
  \<open>M[i][j] = v\<close> on the matrix at address \<open>a\<close>; an index outside the matrix raises.
  Storing \<open>None\<close> in a float matrix stores not-a-number.
\<close>

definition heap_set :: "heap \<Rightarrow> addr \<Rightarrow> nat \<Rightarrow> nat \<Rightarrow> npfloat \<Rightarrow> error + heap" where
  "heap_set h a i j v =
     (if a < length h \<and> i < length (h ! a) \<and> j < length (h ! a ! i) then
        Inr (h[a := (h ! a)[i := (h ! a ! i)[j := v]]])
      else Inl IndexError)"

definition to_float :: "real option \<Rightarrow> npfloat" where
  "to_float x = (case x of None \<Rightarrow> NaN | Some r \<Rightarrow> Fin r)"

text \<open>\<open>np.amax\<close>: the greatest entry; not-a-number propagates; an empty matrix raises.\<close>

fun fmax :: "npfloat \<Rightarrow> npfloat \<Rightarrow> npfloat" where
  "fmax NaN y = NaN"
| "fmax x NaN = NaN"
| "fmax NegInf y = y"
| "fmax x NegInf = x"
| "fmax (Fin a) (Fin b) = Fin (max a b)"

definition amax :: "matrix \<Rightarrow> error + npfloat" where
  "amax m = (case concat m of [] \<Rightarrow> Inl ValueError | x # xs \<Rightarrow> Inr (fold fmax xs x))"

section \<open>\<open>run_nowcast_experiment\<close>\<close>

text \<open>The two assignments of one \<open>(l_idx, g_idx)\<close> after a report.\<close>

definition store_cell ::
  "addr list list \<Rightarrow> addr list list \<Rightarrow> metric_grids \<Rightarrow> nat \<Rightarrow> nat \<Rightarrow> nat \<Rightarrow> nat \<Rightarrow>
   heap \<Rightarrow> error + heap" where
  "store_cell mse_results rsq_results report window backfill l_idx g_idx h =
     (case report of (rsq, mse) \<Rightarrow>
        (case heap_set h (mse_results ! l_idx ! g_idx) window backfill
                (to_float (mse ! l_idx ! g_idx)) of
           Inl e \<Rightarrow> Inl e
         | Inr h' \<Rightarrow>
             heap_set h' (rsq_results ! l_idx ! g_idx) window backfill
               (to_float (rsq ! l_idx ! g_idx))))"

text \<open>One \<open>(window, backfill)\<close> pair: the report, then its metrics into every matrix.\<close>

definition fill_cell ::
  "env \<Rightarrow> string \<Rightarrow> data \<Rightarrow> location list \<Rightarrow> group list \<Rightarrow> period \<Rightarrow> string \<Rightarrow> string \<Rightarrow>
   addr list list \<Rightarrow> addr list list \<Rightarrow> nat \<Rightarrow> nat \<Rightarrow> heap \<Rightarrow> error + heap" where
  "fill_cell env report_path data locations groups period mode model_type
       mse_results rsq_results window backfill h =
     (case nowcast_report env report_path data locations groups period
             (int window) (int backfill) mode model_type of
        Inl e \<Rightarrow> Inl e
      | Inr report \<Rightarrow>
          for_each [0..<length locations]
            (\<lambda>l_idx. for_each [0..<length groups]
               (store_cell mse_results rsq_results report window backfill l_idx))
            h)"

text \<open>The loops over \<open>range(max_window + 1)\<close> and \<open>range(window + 1)\<close>.\<close>

definition fill_grid ::
  "env \<Rightarrow> string \<Rightarrow> data \<Rightarrow> location list \<Rightarrow> group list \<Rightarrow> period \<Rightarrow> string \<Rightarrow> string \<Rightarrow>
   addr list list \<Rightarrow> addr list list \<Rightarrow> int \<Rightarrow> heap \<Rightarrow> error + heap" where
  "fill_grid env report_path data locations groups period mode model_type
       mse_results rsq_results max_window h =
     for_each [0..<nat (max_window + 1)]
       (\<lambda>window. for_each [0..<window + 1]
          (fill_cell env report_path data locations groups period mode model_type
             mse_results rsq_results window))
       h"

type_synonym summary = "(period \<times> group) \<rightharpoonup> npfloat"

text \<open>The plotting loop: two heat maps, then the entry of the results summary.\<close>

definition summary_cell ::
  "env \<Rightarrow> string \<Rightarrow> period \<Rightarrow> location list \<Rightarrow> group list \<Rightarrow>
   addr list list \<Rightarrow> addr list list \<Rightarrow> heap \<Rightarrow> nat \<Rightarrow> nat \<Rightarrow> summary \<Rightarrow> error + summary" where
  "summary_cell env report_path period locations groups mse_results rsq_results h
       l_idx g_idx results =
     (let location = locations ! l_idx; group = groups ! g_idx in
      case plot_results env report_path (h ! (mse_results ! l_idx ! g_idx))
             ''mse'' location group ''Reds'' of
        Inl e \<Rightarrow> Inl e
      | Inr u \<Rightarrow>
          (case plot_results env report_path (h ! (rsq_results ! l_idx ! g_idx))
                  ''rsq'' location group ''Blues'' of
             Inl e \<Rightarrow> Inl e
           | Inr u' \<Rightarrow>
               (case amax (h ! (rsq_results ! l_idx ! g_idx)) of
                  Inl e \<Rightarrow> Inl e
                | Inr v \<Rightarrow> Inr (results((period, group) \<mapsto> v)))))"

text \<open>The body of the loop over \<open>groupings\<close>, for one period and one list of locations.\<close>

definition experiment_group ::
  "env \<Rightarrow> string \<Rightarrow> data \<Rightarrow> period \<Rightarrow> int \<Rightarrow> string \<Rightarrow> string \<Rightarrow> addr \<Rightarrow> addr \<Rightarrow>
   location list \<Rightarrow> group list \<Rightarrow> heap \<times> summary \<Rightarrow> error + (heap \<times> summary)" where
  "experiment_group env report_path data period max_window mode model_type
       mse_record_mat rsq_record_mat locations groups st =
     (case st of (h, results) \<Rightarrow>
        (case create_double_list_mat mse_record_mat (length locations) (length groups) h of
           (mse_results, h1) \<Rightarrow>
             (case create_double_list_mat rsq_record_mat (length locations) (length groups) h1 of
                (rsq_results, h2) \<Rightarrow>
                  (case fill_grid env report_path data locations groups period mode model_type
                          mse_results rsq_results max_window h2 of
                     Inl e \<Rightarrow> Inl e
                   | Inr h3 \<Rightarrow>
                       (case for_each [0..<length locations]
                               (\<lambda>l_idx. for_each [0..<length groups]
                                  (summary_cell env report_path period locations groups
                                     mse_results rsq_results h3 l_idx))
                               results of
                          Inl e \<Rightarrow> Inl e
                        | Inr results' \<Rightarrow> Inr (h3, results'))))))"

definition experiment_period ::
  "env \<Rightarrow> data \<Rightarrow> location list list \<Rightarrow> group list list \<Rightarrow> int \<Rightarrow> string \<Rightarrow> string \<Rightarrow>
   addr \<Rightarrow> addr \<Rightarrow> period \<Rightarrow> heap \<times> summary \<Rightarrow> error + (heap \<times> summary)" where
  "experiment_period env data location_groups groupings max_window mode model_type
       mse_record_mat rsq_record_mat period st =
     (let report_path = ''./nowcast/'' @ str_period env period in
      case make_dirs env report_path of
        Inl e \<Rightarrow> Inl e
      | Inr u \<Rightarrow>
          for_each location_groups
            (\<lambda>locations. for_each groupings
               (experiment_group env report_path data period max_window mode model_type
                  mse_record_mat rsq_record_mat locations))
            st)"

text \<open>
  The function returns nothing; the model returns the store of the matrices and the
  summary handed to \<open>write_data\<close>.
\<close>

definition run_nowcast_experiment ::
  "env \<Rightarrow> data \<Rightarrow> location list list \<Rightarrow> group list list \<Rightarrow> period list \<Rightarrow> int \<Rightarrow>
   string \<Rightarrow> string \<Rightarrow> error + (heap \<times> summary)" where
  "run_nowcast_experiment env data location_groups groupings time_periods max_window
       mode model_type =
     (case np_full (max_window + 1) (max_window + 1) NegInf [] of
        Inl e \<Rightarrow> Inl e
      | Inr (mse_record_mat, h0) \<Rightarrow>
          (case np_full (max_window + 1) (max_window + 1) NegInf h0 of
             Inl e \<Rightarrow> Inl e
           | Inr (rsq_record_mat, h1) \<Rightarrow>
               (case for_each time_periods
                       (experiment_period env data location_groups groupings max_window
                          mode model_type mse_record_mat rsq_record_mat)
                       (h1, Map.empty) of
                  Inl e \<Rightarrow> Inl e
                | Inr (h, results) \<Rightarrow>
                    (case write_data env results ''./nowcast/results.txt'' of
                       Inl e \<Rightarrow> Inl e
                     | Inr u \<Rightarrow> Inr (h, results)))))"

section \<open>\<open>predict\<close>\<close>

text \<open>
  Modelled from the spec: \<open>flatten_double_list\<close> of the module \<open>tools\<close>, which is not among
  the sources. It lists the cells of a grid, row after row.
\<close>

definition flatten_double_list :: "'a list list \<Rightarrow> 'a list" where
  "flatten_double_list grid = concat grid"

text \<open>
  The penalised score of one candidate window: \<open>validate\<close> on the validation period with
  the window as left and backfill window, both grids stacked into vectors, and
  \<open>r2_score(ground_truth, predictions) - PENALTY * window\<close>.
\<close>

definition penalized_rsq ::
  "env \<Rightarrow> data \<Rightarrow> location list \<Rightarrow> group list \<Rightarrow> period \<Rightarrow> string \<Rightarrow> string \<Rightarrow> int \<Rightarrow>
   error + real" where
  "penalized_rsq env data locations groups val_period mode model_type window =
     (case validate env data locations groups val_period 0 window 0 window mode model_type of
        Inl e \<Rightarrow> Inl e
      | Inr res \<Rightarrow>
          (case np_vstack env (flatten_double_list (predictions res)) of
             Inl e \<Rightarrow> Inl e
           | Inr preds \<Rightarrow>
               (case np_vstack env (flatten_double_list (ground_truth res)) of
                  Inl e \<Rightarrow> Inl e
                | Inr truth \<Rightarrow>
                    (case r2_score env truth preds of
                       Inl e \<Rightarrow> Inl e
                     | Inr r \<Rightarrow> Inr (r - PENALTY env * of_int window)))))"

text \<open>The body of the sweep; the state is \<open>(opt_window, cur_rsq)\<close>.\<close>

definition sweep_step ::
  "env \<Rightarrow> data \<Rightarrow> location list \<Rightarrow> group list \<Rightarrow> period \<Rightarrow> string \<Rightarrow> string \<Rightarrow> int \<Rightarrow>
   int \<times> real \<Rightarrow> error + (int \<times> real)" where
  "sweep_step env data locations groups val_period mode model_type window st =
     (case st of (opt_window, cur_rsq) \<Rightarrow>
        (case penalized_rsq env data locations groups val_period mode model_type window of
           Inl e \<Rightarrow> Inl e
         | Inr rsq \<Rightarrow>
             Inr (if rsq > cur_rsq then (window, rsq) else (opt_window, cur_rsq))))"

definition select_window ::
  "env \<Rightarrow> data \<Rightarrow> location list \<Rightarrow> group list \<Rightarrow> period \<Rightarrow> int \<Rightarrow> string \<Rightarrow> string \<Rightarrow>
   error + (int \<times> real)" where
  "select_window env data locations groups val_period max_window mode model_type =
     for_each (range_int 0 (max_window + 1))
       (sweep_step env data locations groups val_period mode model_type)
       (0, 0)"






section \<open>A small environment for running the model\<close>

text \<open>
  Stand-ins for the collaborators, small enough to evaluate: a calendar whose periods
  unravel to their two end points, a feature layer that reads a pair (current value,
  final value) from the data store, estimators that predict the current value shifted by
  their quantile, the usual formulas of the two metrics, and sinks that accept everything.
\<close>

definition r2_stub :: "real list \<Rightarrow> real list \<Rightarrow> error + real" where
  "r2_stub y_true y_pred =
     (if y_true = [] \<or> length y_true \<noteq> length y_pred then Inl ValueError
      else
        (let mean = sum_list y_true / of_nat (length y_true);
             ss_res = sum_list (map (\<lambda>(t, p). (t - p) * (t - p)) (zip y_true y_pred));
             ss_tot = sum_list (map (\<lambda>t. (t - mean) * (t - mean)) y_true) in
         Inr (if ss_tot = 0 then (if ss_res = 0 then 1 else 0) else 1 - ss_res / ss_tot)))"

definition mse_stub :: "real list \<Rightarrow> real list \<Rightarrow> error + real" where
  "mse_stub y_true y_pred =
     (if y_true = [] \<or> length y_true \<noteq> length y_pred then Inl ValueError
      else Inr (sum_list (map (\<lambda>(t, p). (t - p) * (t - p)) (zip y_true y_pred))
                  / of_nat (length y_true)))"

definition fetch_stub ::
  "data \<Rightarrow> location \<Rightarrow> group \<Rightarrow> epiweek \<Rightarrow> int \<Rightarrow> int \<Rightarrow> int \<Rightarrow> int \<Rightarrow>
   error + (features \<times> real \<times> real)" where
  "fetch_stub data loc grp epiweek lag left_window right_window backfill_window =
     (case data (epiweek, grp, loc) of
        None \<Rightarrow> Inl KeyError
      | Some v \<Rightarrow> (case v of [c, y] \<Rightarrow> Inr ([c], c, y) | _ \<Rightarrow> Inl ValueError))"

definition env0 :: env where
  "env0 =
     \<lparr>FIRST_YEAR = 2010,
      YEAR_WINDOW = 3,
      PENALTY = 4 / 100,
      UPPER_QUANT = 9 / 10,
      MID_QUANT = 1 / 2,
      LOWER_QUANT = 1 / 10,
      get_start_year = (\<lambda>w. if 40 \<le> w mod 100 then w div 100 else w div 100 - 1),
      get_period = (\<lambda>year start_week end_week. (year * 100 + start_week, (year + 1) * 100 + end_week)),
      get_max_window = (\<lambda>w. 3),
      unravel = (\<lambda>p. [fst p, snd p]),
      prepare = (\<lambda>data locations groups periods lag lw rw bw. Inr ([], [])),
      fetch = fetch_stub,
      fit = (\<lambda>fam q X Y. Inr (\<lambda>x. sum_list x + (q - 1 / 2))),
      cofit = (\<lambda>fam qu qm ql X Y.
                 Inr (\<lambda>x. sum_list x + (qu - 1 / 2),
                      \<lambda>x. sum_list x + (qm - 1 / 2),
                      \<lambda>x. sum_list x + (ql - 1 / 2))),
      r2_score = r2_stub,
      mean_squared_error = mse_stub,
      np_vstack = (\<lambda>cells. if cells = [] then Inl ValueError else Inr (concat cells)),
      str_period = (\<lambda>p. ''season''),
      make_dirs = (\<lambda>path. Inr ()),
      plot_series = (\<lambda>path location group lw bw weeks p pu pl c t. Inr ()),
      plot_results = (\<lambda>path m name location group colormap. Inr ()),
      write_data = (\<lambda>results path. Inr ())\<rparr>"

text \<open>Two locations, one age group, the season 2015/16.\<close>

definition data0 :: data where
  "data0 =
     [(201540, 1, ''CA'') \<mapsto> [1, 1], (201617, 1, ''CA'') \<mapsto> [2, 2],
      (201540, 1, ''NY'') \<mapsto> [2, 1], (201617, 1, ''NY'') \<mapsto> [1, 2]]"

text \<open>The same store without the last week of the second location.\<close>

definition data1 :: data where
  "data1 = data0((201617, 1, ''NY'') := None)"

text \<open>
  An environment whose features are the left window and whose score depends on the
  prediction only: the candidate windows 0, 1, 2, 3 score 0.1, 0.09, 0.38, 0.37 before
  the penalty.
\<close>

definition env1 :: env where
  "env1 = env0
     \<lparr>fetch := (\<lambda>data loc grp epiweek lag lw rw bw. Inr ([of_int lw], 0, 0)),
      r2_score := (\<lambda>truth preds.
         case preds of
           [] \<Rightarrow> Inl ValueError
         | v # vs \<Rightarrow>
             Inr (if v = 0 then 1 / 10 else if v = 1 then 9 / 100
                  else if v = 2 then 38 / 100 else 37 / 100))\<rparr>"

section \<open>Shapes of result grids\<close>

text \<open>A grid with \<open>n\<close> rows of \<open>m\<close> cells.\<close>

abbreviation shaped :: "nat \<Rightarrow> nat \<Rightarrow> 'a list list \<Rightarrow> bool" where
  "shaped n m grid \<equiv> length grid = n \<and> (\<forall>l<n. length (grid ! l) = m)"

section \<open>Predicates for the effect of the prediction loops\<close>








section \<open>Predicates for the effect of the experiment on the store\<close>

text \<open>
  Between two stores the matrices keep their number and their shapes, and every cell
  outside the set \<open>W\<close> of (address, row, column) triples keeps its value.
\<close>

definition frame :: "(addr \<times> nat \<times> nat) set \<Rightarrow> heap \<Rightarrow> heap \<Rightarrow> bool" where
  "frame W h h' =
     (length h' = length h \<and>
      (\<forall>a. length (h' ! a) = length (h ! a)) \<and>
      (\<forall>a i. length (h' ! a ! i) = length (h ! a ! i)) \<and>
      (\<forall>a i j. (a, i, j) \<notin> W \<longrightarrow> h' ! a ! i ! j = h ! a ! i ! j))"

text \<open>The addresses of two grids of \<open>n\<close> rows and \<open>m\<close> columns are pairwise different.\<close>

definition separate :: "addr list list \<Rightarrow> addr list list \<Rightarrow> nat \<Rightarrow> nat \<Rightarrow> bool" where
  "separate mse_results rsq_results n m =
     (\<forall>l<n. \<forall>g<m. \<forall>l'<n. \<forall>g'<m.
        (mse_results ! l ! g = mse_results ! l' ! g' \<longrightarrow> l = l' \<and> g = g') \<and>
        (rsq_results ! l ! g = rsq_results ! l' ! g' \<longrightarrow> l = l' \<and> g = g') \<and>
        mse_results ! l ! g \<noteq> rsq_results ! l' ! g')"

text \<open>
  The cell \<open>(window, backfill)\<close> of the two matrices of the pair \<open>(l, g)\<close> holds the metrics
  that \<open>nowcast_report\<close> returns for that pair with that window and backfill.
\<close>

definition cell_reported ::
  "env \<Rightarrow> string \<Rightarrow> data \<Rightarrow> location list \<Rightarrow> group list \<Rightarrow> period \<Rightarrow> string \<Rightarrow> string \<Rightarrow>
   addr list list \<Rightarrow> addr list list \<Rightarrow> nat \<Rightarrow> nat \<Rightarrow> nat \<Rightarrow> nat \<Rightarrow> heap \<Rightarrow> bool" where
  "cell_reported env report_path data locations groups period mode model_type
       mse_results rsq_results l g window backfill h =
     (case nowcast_report env report_path data locations groups period
             (int window) (int backfill) mode model_type of
        Inl e \<Rightarrow> False
      | Inr (rsq, mse) \<Rightarrow>
          h ! (rsq_results ! l ! g) ! window ! backfill = to_float (rsq ! l ! g) \<and>
          h ! (mse_results ! l ! g) ! window ! backfill = to_float (mse ! l ! g))"

text \<open>
  Every matrix of the store is a square of side \<open>N\<close> whose cells above the diagonal
  (column greater than row, that is backfill greater than window) hold the sentinel.
\<close>

definition sentinel_above :: "nat \<Rightarrow> heap \<Rightarrow> bool" where
  "sentinel_above N h =
     (\<forall>a<length h. length (h ! a) = N \<and>
        (\<forall>i<N. length (h ! a ! i) = N \<and> (\<forall>j<N. i < j \<longrightarrow> h ! a ! i ! j = NegInf)))"

text \<open>
  The invariant of the outer loops of the experiment: the two templates are in the store,
  every matrix holds the sentinel above its diagonal, and every entry of the summary is
  the maximum of one matrix of the store.
\<close>

definition run_inv :: "nat \<Rightarrow> heap \<times> summary \<Rightarrow> bool" where
  "run_inv N st =
     (case st of (h, results) \<Rightarrow>
        2 \<le> length h \<and> sentinel_above N h \<and>
        (\<forall>key v. results key = Some v \<longrightarrow> (\<exists>a<length h. amax (h ! a) = Inr v)))"

text \<open>The store at the end of the example run: two templates, two pairs, two metrics.\<close>

definition sentinel2 :: matrix where
  "sentinel2 = [[NegInf, NegInf], [NegInf, NegInf]]"

definition heap_example :: heap where
  "heap_example =
     [sentinel2, sentinel2,
      [[Fin 0, NegInf], [Fin 0, Fin 0]], [[Fin 1, NegInf], [Fin 1, Fin 1]],
      [[Fin 1, NegInf], [Fin 1, Fin 1]], [[Fin (- 3), NegInf], [Fin (- 3), Fin (- 3)]]]"

section \<open>Properties of \<open>train_model\<close>\<close>

text \<open>
  Claim C3. For every training input and every model-type tag outside
  \<open>lin\<close>, \<open>ridge\<close>, \<open>gbdt\<close>, \<open>quant_lin\<close>, \<open>quant_ridge\<close>, \<open>quant_gbdt\<close>, \<open>train_model\<close> fails:
  it returns the error of the unbound model variable whatever the estimators of the
  environment do, so no estimator is fitted and no default model is returned.
\<close>

theorem train_model_unrecognized_tag:
  assumes "model_type \<notin> {''lin'', ''ridge'', ''gbdt'', ''quant_lin'', ''quant_ridge'', ''quant_gbdt''}"
  shows "train_model env X Y model_type = Inl UnboundLocalError"
  using assms by (simp add: train_model_def family_of_def)

theorem train_model_unrecognized_tag_witness:
  "''svr'' \<notin> {''lin'', ''ridge'', ''gbdt'', ''quant_lin'', ''quant_ridge'', ''quant_gbdt''}
   \<and> train_model env0 [] [] ''svr'' = Inl UnboundLocalError"
  using train_model_unrecognized_tag [of "''svr''" env0 "[]" "[]"] by simp

section \<open>Rules for loops\<close>

lemma for_each_append:
  "for_each (xs @ ys) body s =
     (case for_each xs body s of Inl e \<Rightarrow> Inl e | Inr s' \<Rightarrow> for_each ys body s')"
  by (induction xs arbitrary: s) (auto split: sum.splits)

lemma for_each_snoc:
  "for_each (xs @ [x]) body s =
     (case for_each xs body s of Inl e \<Rightarrow> Inl e | Inr s' \<Rightarrow> body x s')"
  by (simp add: for_each_append split: sum.splits)

lemma for_each_upt_Suc:
  "for_each [0..<Suc k] body s =
     (case for_each [0..<k] body s of Inl e \<Rightarrow> Inl e | Inr s' \<Rightarrow> body k s')"
  by (simp add: for_each_snoc)

lemma for_each_invariant:
  assumes "for_each xs body s = Inr s'" and "P s"
    and "\<And>x t t'. x \<in> set xs \<Longrightarrow> P t \<Longrightarrow> body x t = Inr t' \<Longrightarrow> P t'"
  shows "P s'"
  using assms
proof (induction xs arbitrary: s)
  case Nil
  then show ?case by simp
next
  case (Cons x xs)
  from Cons.prems(1) obtain t where t: "body x s = Inr t" "for_each xs body t = Inr s'"
    by (auto split: sum.splits)
  have pt: "P t" using Cons.prems(3)[of x s t] Cons.prems(2) t(1) by simp
  show ?case
  proof (rule Cons.IH[OF t(2) pt])
    fix y u u' assume "y \<in> set xs" "P u" "body y u = Inr u'"
    then show "P u'" using Cons.prems(3)[of y u u'] by simp
  qed
qed

lemma for_each_establish:
  assumes "for_each xs body s = Inr s'" and "x \<in> set xs"
    and est: "\<And>t t'. body x t = Inr t' \<Longrightarrow> P t'"
    and pres: "\<And>y t t'. y \<in> set xs \<Longrightarrow> P t \<Longrightarrow> body y t = Inr t' \<Longrightarrow> P t'"
  shows "P s'"
  using assms(1,2) pres
proof (induction xs arbitrary: s)
  case Nil
  then show ?case by simp
next
  case (Cons a xs)
  from Cons.prems(1) obtain t where t: "body a s = Inr t" "for_each xs body t = Inr s'"
    by (auto split: sum.splits)
  have pres': "\<And>y u u'. y \<in> set xs \<Longrightarrow> P u \<Longrightarrow> body y u = Inr u' \<Longrightarrow> P u'"
    by (rule Cons.prems(3)[OF list.set_intros(2)])
  show ?case
  proof (cases "a = x")
    case True
    then have "P t" using est t(1) by simp
    then show ?thesis using for_each_invariant[OF t(2), of P] pres' by blast
  next
    case False
    then have "x \<in> set xs" using Cons.prems(2) by simp
    then show ?thesis using Cons.IH[OF t(2)] pres' by blast
  qed
qed


lemma for_each_total:
  assumes "\<And>x t. x \<in> set xs \<Longrightarrow> \<exists>t'. body x t = Inr t'"
  shows "\<exists>s'. for_each xs body s = Inr s'"
  using assms
proof (induction xs arbitrary: s)
  case Nil
  then show ?case by simp
next
  case (Cons a xs)
  obtain t where t: "body a s = Inr t" using Cons.prems[of a s] by auto
  have "\<exists>s'. for_each xs body t = Inr s'" using Cons.IH Cons.prems by simp
  then show ?case using t by simp
qed


section \<open>Properties of \<open>validate\<close>\<close>

lemma append_cell_length: "length (append_cell grid l g v) = length grid"
  by (simp add: append_cell_def)

lemma append_cell_row_length: "length (append_cell grid l g v ! l') = length (grid ! l')"
  by (cases "l' = l"; cases "l < length grid") (simp_all add: append_cell_def list_update_beyond)

lemma append_cell_cell_length:
  "l < length grid \<Longrightarrow> g < length (grid ! l) \<Longrightarrow>
   length (append_cell grid l g v ! l' ! g') =
     length (grid ! l' ! g') + (if l' = l \<and> g' = g then 1 else 0)"
  by (cases "l' = l"; cases "g' = g") (simp_all add: append_cell_def)

lemma validate_cell_effect:
  assumes "validate_cell env data models locs grps lag lw rw bw e l g st = Inr st'"
    and "l < n" "g < m" "shaped n m (predictions st)"
  shows "shaped n m (predictions st') \<and> valid_weeks st' = valid_weeks st \<and>
     (\<forall>l' g'. length (predictions st' ! l' ! g') =
        length (predictions st ! l' ! g') +
          (if l' = l \<and> g' = g \<and> (e, grps ! g', locs ! l') \<in> dom data then 1 else 0))"
proof (cases "(e, grps ! g, locs ! l) \<in> dom data")
  case False
  then have "st' = st" using assms(1) by (simp add: validate_cell_def)
  then show ?thesis using assms False by auto
next
  case True
  then obtain x c y mu mm ml where
    st': "st' = st\<lparr>predictions := append_cell (predictions st) l g (mm x),
                 predictions_lower := append_cell (predictions_lower st) l g (ml x),
                 predictions_upper := append_cell (predictions_upper st) l g (mu x),
                 cur_truth := append_cell (cur_truth st) l g c,
                 ground_truth := append_cell (ground_truth st) l g y\<rparr>"
    using assms(1)
    by (auto simp: validate_cell_def Let_def split: sum.splits prod.splits)
  have p: "predictions st' = append_cell (predictions st) l g (mm x)"
    and v: "valid_weeks st' = valid_weeks st"
    by (simp_all add: st')
  show ?thesis
    using assms(2-4) True
    by (simp add: p v append_cell_length append_cell_row_length append_cell_cell_length)
qed

lemma validate_groups_effect:
  assumes "for_each [0..<k] (validate_cell env data models locs grps lag lw rw bw e l) st = Inr st'"
    and "k \<le> m" "l < n" "shaped n m (predictions st)"
  shows "shaped n m (predictions st') \<and> valid_weeks st' = valid_weeks st \<and>
     (\<forall>l' g'. length (predictions st' ! l' ! g') =
        length (predictions st ! l' ! g') +
          (if l' = l \<and> g' < k \<and> (e, grps ! g', locs ! l') \<in> dom data then 1 else 0))"
  using assms(1,2)
proof (induction k arbitrary: st')
  case 0
  then show ?case using assms(4) by simp
next
  case (Suc k)
  from Suc.prems(1) obtain t where
    t: "for_each [0..<k] (validate_cell env data models locs grps lag lw rw bw e l) st = Inr t"
       "validate_cell env data models locs grps lag lw rw bw e l k t = Inr st'"
    by (auto simp: for_each_snoc split: sum.splits)
  have IH: "shaped n m (predictions t) \<and> valid_weeks t = valid_weeks st \<and>
     (\<forall>l' g'. length (predictions t ! l' ! g') =
        length (predictions st ! l' ! g') +
          (if l' = l \<and> g' < k \<and> (e, grps ! g', locs ! l') \<in> dom data then 1 else 0))"
    using Suc.IH[OF t(1)] Suc.prems(2) by simp
  have km: "k < m" using Suc.prems(2) by simp
  have sh: "shaped n m (predictions t)" using IH by blast
  note c = validate_cell_effect[OF t(2) assms(3) km sh]
  show ?case using IH c by (auto simp: less_Suc_eq)
qed

lemma validate_locations_effect:
  assumes "for_each [0..<k]
             (\<lambda>l. for_each [0..<m] (validate_cell env data models locs grps lag lw rw bw e l))
             st = Inr st'"
    and "k \<le> n" "shaped n m (predictions st)"
  shows "shaped n m (predictions st') \<and> valid_weeks st' = valid_weeks st \<and>
     (\<forall>l' g'. length (predictions st' ! l' ! g') =
        length (predictions st ! l' ! g') +
          (if l' < k \<and> g' < m \<and> (e, grps ! g', locs ! l') \<in> dom data then 1 else 0))"
  using assms(1,2)
proof (induction k arbitrary: st')
  case 0
  then show ?case using assms(3) by simp
next
  case (Suc k)
  from Suc.prems(1) obtain t where
    t: "for_each [0..<k]
          (\<lambda>l. for_each [0..<m] (validate_cell env data models locs grps lag lw rw bw e l))
          st = Inr t"
       "for_each [0..<m] (validate_cell env data models locs grps lag lw rw bw e k) t = Inr st'"
    by (auto simp: for_each_snoc split: sum.splits)
  have IH: "shaped n m (predictions t) \<and> valid_weeks t = valid_weeks st \<and>
     (\<forall>l' g'. length (predictions t ! l' ! g') =
        length (predictions st ! l' ! g') +
          (if l' < k \<and> g' < m \<and> (e, grps ! g', locs ! l') \<in> dom data then 1 else 0))"
    using Suc.IH[OF t(1)] Suc.prems(2) by simp
  have kn: "k < n" using Suc.prems(2) by simp
  have sh: "shaped n m (predictions t)" using IH by blast
  note c = validate_groups_effect[OF t(2) order_refl kn sh]
  show ?case using IH c by (auto simp: less_Suc_eq)
qed

lemma validate_week_effect:
  assumes "validate_week env data models locs grps lag lw rw bw e st = Inr st'"
    and "shaped (length locs) (length grps) (predictions st)"
  shows "shaped (length locs) (length grps) (predictions st') \<and>
     valid_weeks st' = valid_weeks st @ [e] \<and>
     (\<forall>l' g'. length (predictions st' ! l' ! g') =
        length (predictions st ! l' ! g') +
          (if l' < length locs \<and> g' < length grps \<and> (e, grps ! g', locs ! l') \<in> dom data
           then 1 else 0))"
  using validate_locations_effect[OF assms(1)[unfolded validate_week_def] order_refl] assms(2)
  by simp

lemma validate_weeks_effect:
  assumes "for_each ws (validate_week env data models locs grps lag lw rw bw) st = Inr st'"
    and "shaped (length locs) (length grps) (predictions st)"
  shows "valid_weeks st' = valid_weeks st @ ws \<and>
     (\<forall>l' g'. l' < length locs \<longrightarrow> g' < length grps \<longrightarrow>
        length (predictions st' ! l' ! g') =
          length (predictions st ! l' ! g') +
            length (filter (\<lambda>e. (e, grps ! g', locs ! l') \<in> dom data) ws))"
  using assms
proof (induction ws arbitrary: st)
  case Nil
  then show ?case by simp
next
  case (Cons e ws)
  from Cons.prems(1) obtain t where
    t: "validate_week env data models locs grps lag lw rw bw e st = Inr t"
       "for_each ws (validate_week env data models locs grps lag lw rw bw) t = Inr st'"
    by (auto split: sum.splits)
  note w = validate_week_effect[OF t(1) Cons.prems(2)]
  have sh: "shaped (length locs) (length grps) (predictions t)" using w by blast
  note IH = Cons.IH[OF t(2) sh]
  show ?case using IH w by auto
qed

lemma empty_results_facts:
  "shaped n m (predictions (empty_results n m))"
  "valid_weeks (empty_results n m) = []"
  "l < n \<Longrightarrow> g < m \<Longrightarrow> predictions (empty_results n m) ! l ! g = []"
  by (simp_all add: empty_results_def create_double_list_def)

lemma validate_Inr:
  assumes "validate env data locations groups time_period lag lw rw bw mode mt = Inr r"
  shows "\<exists>X Y models.
     prepare env data locations groups
       (training_periods env mode (get_start_year env (fst time_period))) lag lw rw bw = Inr (X, Y) \<and>
     train_model env X Y mt = Inr models \<and>
     for_each (unravel env time_period)
       (validate_week env data models locations groups lag lw rw bw)
       (empty_results (length locations) (length groups)) = Inr r"
  using assms by (auto simp: validate_def Let_def split: sum.splits prod.splits)

text \<open>
  Claim C2. When \<open>validate\<close> returns, \<open>valid_weeks\<close> holds every epiweek of the target
  period, in order, whatever the data store contains, and the prediction sequence of a
  pair \<open>(l, g)\<close> has one entry for each epiweek of the period whose key
  \<open>(epiweek, group, location)\<close> is in the data store; so \<open>valid_weeks\<close> is at least as
  long as the prediction sequence of every pair.
\<close>

theorem validate_valid_weeks_cover:
  assumes "validate env data locations groups time_period lag lw rw bw mode mt = Inr r"
    and "l < length locations" and "g < length groups"
  shows "valid_weeks r = unravel env time_period \<and>
     length (predictions r ! l ! g) =
       length (filter (\<lambda>epiweek. (epiweek, groups ! g, locations ! l) \<in> dom data)
                 (unravel env time_period)) \<and>
     length (predictions r ! l ! g) \<le> length (valid_weeks r)"
proof -
  from validate_Inr[OF assms(1)] obtain models where
    loop: "for_each (unravel env time_period)
       (validate_week env data models locations groups lag lw rw bw)
       (empty_results (length locations) (length groups)) = Inr r"
    by blast
  note e = validate_weeks_effect[OF loop empty_results_facts(1)]
  have vw: "valid_weeks r = unravel env time_period"
    using e by (simp add: empty_results_facts(2))
  have len: "length (predictions r ! l ! g) =
       length (filter (\<lambda>epiweek. (epiweek, groups ! g, locations ! l) \<in> dom data)
                 (unravel env time_period))"
    using e assms(2,3) by (simp add: empty_results_facts(3))
  show ?thesis using vw len by simp
qed

lemma validate_example:
  "\<exists>r. validate env0 data1 [''CA'', ''NY''] [1] (201540, 201617) 0 0 0 0 ''all'' ''lin'' = Inr r"
  by (simp add: validate_def training_periods_def range_int_def train_model_def family_of_def
      validate_week_def validate_cell_def append_cell_def empty_results_def
      create_double_list_def env0_def data0_def data1_def fetch_stub_def Let_def)


theorem validate_valid_weeks_cover_witness:
  "\<exists>r. validate env0 data1 [''CA'', ''NY''] [1] (201540, 201617) 0 0 0 0 ''all'' ''lin'' = Inr r \<and>
     valid_weeks r = [201540, 201617] \<and>
     length (predictions r ! 1 ! 0) = 1 \<and>
     length (predictions r ! 1 ! 0) \<le> length (valid_weeks r)"
proof -
  obtain r where
    r: "validate env0 data1 [''CA'', ''NY''] [1] (201540, 201617) 0 0 0 0 ''all'' ''lin'' = Inr r"
    using validate_example by blast
  have a: "(1::nat) < length [''CA'', ''NY'']" and b: "(0::nat) < length [1::int]"
    by simp_all
  from validate_valid_weeks_cover[OF r a b] show ?thesis
    using r by (simp add: env0_def data1_def data0_def)
qed

subsection \<open>An empty training-period set\<close>

lemma validate_cell_total:
  assumes "\<forall>epiweek loc grp. (epiweek, grp, loc) \<in> dom data \<longrightarrow>
             (\<exists>v. fetch env data loc grp epiweek lag lw rw bw = Inr v)"
  shows "\<exists>st'. validate_cell env data models locs grps lag lw rw bw e l g st = Inr st'"
proof (cases "(e, grps ! g, locs ! l) \<in> dom data")
  case False
  then show ?thesis by (simp add: validate_cell_def)
next
  case True
  then obtain v where "fetch env data (locs ! l) (grps ! g) e lag lw rw bw = Inr v"
    using assms by blast
  then show ?thesis using True
    by (cases v; cases models) (auto simp: validate_cell_def Let_def)
qed

lemma validate_week_total:
  assumes "\<forall>epiweek loc grp. (epiweek, grp, loc) \<in> dom data \<longrightarrow>
             (\<exists>v. fetch env data loc grp epiweek lag lw rw bw = Inr v)"
  shows "\<exists>st'. validate_week env data models locs grps lag lw rw bw e st = Inr st'"
  unfolding validate_week_def
  by (intro for_each_total validate_cell_total[OF assms])

text \<open>
  Claim C5, as amended. \<open>validate\<close> has no guard for an empty training-period set. With
  an empty set it hands the empty list to \<open>prepare\<close> and trains the model on what
  \<open>prepare\<close> returns; when \<open>prepare\<close>, \<open>train_model\<close> and the fetches of the keys in the
  data store succeed, \<open>validate\<close> returns normally, with every epiweek of the target
  period in \<open>valid_weeks\<close>. The counterexample runs \<open>validate\<close> with the start year equal
  to \<open>FIRST_YEAR\<close> in mode \<open>all\<close>: the result is not an error.
\<close>

theorem validate_empty_training_set:
  assumes "training_periods env mode (get_start_year env (fst time_period)) = []"
    and "prepare env data locations groups [] lag lw rw bw = Inr (X, Y)"
    and "train_model env X Y mt = Inr models"
    and "\<forall>epiweek loc grp. (epiweek, grp, loc) \<in> dom data \<longrightarrow>
           (\<exists>v. fetch env data loc grp epiweek lag lw rw bw = Inr v)"
  shows "\<exists>r. validate env data locations groups time_period lag lw rw bw mode mt = Inr r \<and>
           for_each (unravel env time_period)
             (validate_week env data models locations groups lag lw rw bw)
             (empty_results (length locations) (length groups)) = Inr r \<and>
           valid_weeks r = unravel env time_period"
proof -
  have v: "validate env data locations groups time_period lag lw rw bw mode mt =
           for_each (unravel env time_period)
             (validate_week env data models locations groups lag lw rw bw)
             (empty_results (length locations) (length groups))"
    using assms(1-3) by (simp add: validate_def)
  obtain r where r: "for_each (unravel env time_period)
             (validate_week env data models locations groups lag lw rw bw)
             (empty_results (length locations) (length groups)) = Inr r"
    using for_each_total[of "unravel env time_period"
        "validate_week env data models locations groups lag lw rw bw"
        "empty_results (length locations) (length groups)"]
      validate_week_total[OF assms(4)] by blast
  have "valid_weeks r = unravel env time_period"
    using validate_weeks_effect[OF r empty_results_facts(1)]
    by (simp add: empty_results_facts(2))
  then show ?thesis using v r by simp
qed

lemma fetch_stub_total:
  "\<forall>epiweek loc grp. (epiweek, grp, loc) \<in> dom data0 \<longrightarrow>
     (\<exists>v. fetch env0 data0 loc grp epiweek 0 0 0 0 = Inr v)"
  by (auto simp: env0_def data0_def fetch_stub_def split: if_splits)

theorem validate_empty_training_set_witness:
  "\<exists>r. validate env0 data0 [''CA''] [1] (201040, 201117) 0 0 0 0 ''all'' ''lin'' = Inr r \<and>
     valid_weeks r = [201040, 201117]"
proof -
  have a: "training_periods env0 ''all'' (get_start_year env0 (fst (201040, 201117))) = []"
    by (simp add: training_periods_def range_int_def env0_def)
  have b: "prepare env0 data0 [''CA''] [1] [] 0 0 0 0 = Inr ([], [])"
    by (simp add: env0_def)
  obtain models where c: "train_model env0 [] [] ''lin'' = Inr models"
    by (simp add: train_model_def family_of_def env0_def)
  from validate_empty_training_set[OF a b c fetch_stub_total] obtain r where
    r: "validate env0 data0 [''CA''] [1] (201040, 201117) 0 0 0 0 ''all'' ''lin'' = Inr r"
       "valid_weeks r = unravel env0 (201040, 201117)"
    by blast
  have "unravel env0 (201040, 201117) = [201040, 201117]" by (simp add: env0_def)
  with r show ?thesis by auto
qed

theorem validate_empty_training_set_counterexample:
  "training_periods env0 ''all'' (get_start_year env0 (fst (201040, 201117))) = [] \<and>
   validate env0 data0 [''CA''] [1] (201040, 201117) 0 0 0 0 ''all'' ''lin'' =
     Inr \<lparr>valid_weeks = [201040, 201117], predictions = [[[]]], predictions_lower = [[[]]],
          predictions_upper = [[[]]], cur_truth = [[[]]], ground_truth = [[[]]]\<rparr>"
  by (simp add: validate_def training_periods_def range_int_def train_model_def family_of_def
      validate_week_def validate_cell_def append_cell_def empty_results_def
      create_double_list_def env0_def data0_def fetch_stub_def Let_def)

section \<open>Properties of \<open>nowcast_report\<close>\<close>






section \<open>The selection rule of \<open>predict\<close>\<close>

lemma sweep_effect:
  assumes "for_each ws (sweep_step env data locs grps vp mode mt) (ow, c) = Inr (ow', c')"
  shows "c \<le> c' \<and>
     (\<forall>w\<in>set ws. \<exists>s. penalized_rsq env data locs grps vp mode mt w = Inr s \<and> s \<le> c') \<and>
     ((ow', c') = (ow, c) \<or>
      (\<exists>pre post. ws = pre @ ow' # post \<and>
         penalized_rsq env data locs grps vp mode mt ow' = Inr c' \<and> c < c' \<and>
         (\<forall>w\<in>set pre. \<exists>s. penalized_rsq env data locs grps vp mode mt w = Inr s \<and> s < c')))"
  using assms
proof (induction ws arbitrary: ow c)
  case Nil
  then show ?case by simp
next
  case (Cons x xs)
  let ?pen = "penalized_rsq env data locs grps vp mode mt"
  have step: "sweep_step env data locs grps vp mode mt x (ow, c) =
      (case ?pen x of Inl e \<Rightarrow> Inl e
       | Inr s \<Rightarrow> Inr (if s > c then (x, s) else (ow, c)))"
    by (simp add: sweep_step_def)
  from Cons.prems obtain s where s: "?pen x = Inr s"
    and rest: "for_each xs (sweep_step env data locs grps vp mode mt)
                 (if s > c then (x, s) else (ow, c)) = Inr (ow', c')"
    by (auto simp: step split: sum.splits)
  show ?case
  proof (cases "s > c")
    case True
    with rest have r: "for_each xs (sweep_step env data locs grps vp mode mt) (x, s) = Inr (ow', c')"
      by simp
    note IH = Cons.IH[OF r]
    from IH have a: "s \<le> c'" by blast
    from IH have b: "\<forall>w\<in>set xs. \<exists>s. ?pen w = Inr s \<and> s \<le> c'" by blast
    from IH consider (same) "(ow', c') = (x, s)"
      | (later) pre post where "xs = pre @ ow' # post" "?pen ow' = Inr c'" "s < c'"
          "\<forall>w\<in>set pre. \<exists>s. ?pen w = Inr s \<and> s < c'"
      by blast
    then have d: "\<exists>pre post. x # xs = pre @ ow' # post \<and> ?pen ow' = Inr c' \<and> c < c' \<and>
         (\<forall>w\<in>set pre. \<exists>s. ?pen w = Inr s \<and> s < c')"
    proof cases
      case same
      then have "x # xs = [] @ ow' # xs \<and> ?pen ow' = Inr c' \<and> c < c' \<and>
         (\<forall>w\<in>set []. \<exists>s. ?pen w = Inr s \<and> s < c')"
        using s True by simp
      then show ?thesis by blast
    next
      case later
      then have "x # xs = (x # pre) @ ow' # post \<and> ?pen ow' = Inr c' \<and> c < c' \<and>
         (\<forall>w\<in>set (x # pre). \<exists>s. ?pen w = Inr s \<and> s < c')"
        using s True by auto
      then show ?thesis by blast
    qed
    show ?thesis using a b d s True by auto
  next
    case False
    with rest have r: "for_each xs (sweep_step env data locs grps vp mode mt) (ow, c) = Inr (ow', c')"
      by simp
    note IH = Cons.IH[OF r]
    from IH have a: "c \<le> c'" by blast
    from IH have b: "\<forall>w\<in>set xs. \<exists>s. ?pen w = Inr s \<and> s \<le> c'" by blast
    from IH consider (same) "(ow', c') = (ow, c)"
      | (later) pre post where "xs = pre @ ow' # post" "?pen ow' = Inr c'" "c < c'"
          "\<forall>w\<in>set pre. \<exists>s. ?pen w = Inr s \<and> s < c'"
      by blast
    then have d: "(ow', c') = (ow, c) \<or>
       (\<exists>pre post. x # xs = pre @ ow' # post \<and> ?pen ow' = Inr c' \<and> c < c' \<and>
         (\<forall>w\<in>set pre. \<exists>s. ?pen w = Inr s \<and> s < c'))"
    proof cases
      case same
      then show ?thesis by simp
    next
      case later
      then have "x # xs = (x # pre) @ ow' # post \<and> ?pen ow' = Inr c' \<and> c < c' \<and>
         (\<forall>w\<in>set (x # pre). \<exists>s. ?pen w = Inr s \<and> s < c')"
        using s False by auto
      then show ?thesis by blast
    qed
    show ?thesis using a b d s False by auto
  qed
qed

lemma upto_split_before:
  assumes "[i..j] = pre @ x # post" and "w \<in> set [i..j]" and "w < x"
  shows "w \<in> set pre"
proof -
  have "sorted (pre @ x # post)" using assms(1) sorted_upto[of i j] by simp
  then have "\<forall>y\<in>set post. x \<le> y" by (simp add: sorted_append)
  then show ?thesis using assms by auto
qed

text \<open>
  Claim C1. The sweep of \<open>predict\<close> scans the candidate windows in increasing order from
  the state (window 0, best score 0.0) and replaces the state only by a candidate whose
  penalised score is strictly greater than the best so far. So when it returns, the best
  score is at least 0 and at least every candidate's score; every candidate before the
  selected window scores strictly less than the best (a later tie does not replace the
  selection); either nothing was selected and the window is 0 with best score 0, or the
  selected window is a candidate whose score is the best and positive; and if no
  candidate scores above 0 the selected window is 0. For the scores 0.1, 0.05, 0.3, 0.25
  of the windows 0, 1, 2, 3 the selected window is 2.
\<close>

theorem select_window_rule:
  "(select_window env data locations groups val_period max_window mode model_type =
      Inr (opt_window, best) \<longrightarrow>
      0 \<le> best \<and>
      (\<forall>w\<in>set (range_int 0 (max_window + 1)).
         \<exists>s. penalized_rsq env data locations groups val_period mode model_type w = Inr s \<and>
             s \<le> best \<and> (w < opt_window \<longrightarrow> s < best)) \<and>
      (opt_window = 0 \<and> best = 0 \<or>
       opt_window \<in> set (range_int 0 (max_window + 1)) \<and> 0 < best \<and>
       penalized_rsq env data locations groups val_period mode model_type opt_window = Inr best) \<and>
      ((\<forall>w\<in>set (range_int 0 (max_window + 1)).
          \<forall>s. penalized_rsq env data locations groups val_period mode model_type w = Inr s \<longrightarrow>
              s \<le> 0) \<longrightarrow> opt_window = 0)) \<and>
   (max_window = 3 \<and>
    penalized_rsq env data locations groups val_period mode model_type 0 = Inr (1 / 10) \<and>
    penalized_rsq env data locations groups val_period mode model_type 1 = Inr (5 / 100) \<and>
    penalized_rsq env data locations groups val_period mode model_type 2 = Inr (3 / 10) \<and>
    penalized_rsq env data locations groups val_period mode model_type 3 = Inr (25 / 100) \<longrightarrow>
    select_window env data locations groups val_period max_window mode model_type =
      Inr (2, 3 / 10))"
proof (intro conjI impI)
  let ?pen = "penalized_rsq env data locations groups val_period mode model_type"
  let ?ws = "range_int 0 (max_window + 1)"
  assume sel: "select_window env data locations groups val_period max_window mode model_type =
      Inr (opt_window, best)"
  then have loop: "for_each ?ws (sweep_step env data locations groups val_period mode model_type)
      (0, 0) = Inr (opt_window, best)"
    by (simp add: select_window_def)
  note e = sweep_effect[OF loop]
  have ws: "?ws = [0..max_window]" by (simp add: range_int_def)
  show "0 \<le> best" using e by blast
  from e consider (same) "(opt_window, best) = (0, 0)"
    | (later) pre post where "?ws = pre @ opt_window # post" "?pen opt_window = Inr best"
        "0 < best" "\<forall>w\<in>set pre. \<exists>s. ?pen w = Inr s \<and> s < best"
    by blast
  note cases = this
  show "\<forall>w\<in>set ?ws. \<exists>s. ?pen w = Inr s \<and> s \<le> best \<and> (w < opt_window \<longrightarrow> s < best)"
  proof
    fix w assume w: "w \<in> set ?ws"
    from e w obtain s where s: "?pen w = Inr s" "s \<le> best" by blast
    have "w < opt_window \<longrightarrow> s < best"
    proof (cases rule: cases)
      case same
      then show ?thesis using w ws by simp
    next
      case later
      show ?thesis
      proof
        assume "w < opt_window"
        then have "w \<in> set pre"
          using upto_split_before[of 0 max_window pre opt_window post w] later(1) w ws by simp
        then show "s < best" using later(4) s(1) by auto
      qed
    qed
    then show "\<exists>s. ?pen w = Inr s \<and> s \<le> best \<and> (w < opt_window \<longrightarrow> s < best)"
      using s by blast
  qed
  show d: "opt_window = 0 \<and> best = 0 \<or>
       opt_window \<in> set ?ws \<and> 0 < best \<and> ?pen opt_window = Inr best"
  proof (cases rule: cases)
    case same
    then show ?thesis by simp
  next
    case later
    then show ?thesis by simp
  qed
  assume "\<forall>w\<in>set ?ws. \<forall>s. ?pen w = Inr s \<longrightarrow> s \<le> 0"
  then show "opt_window = 0" using d by force
next
  assume "max_window = 3 \<and>
    penalized_rsq env data locations groups val_period mode model_type 0 = Inr (1 / 10) \<and>
    penalized_rsq env data locations groups val_period mode model_type 1 = Inr (5 / 100) \<and>
    penalized_rsq env data locations groups val_period mode model_type 2 = Inr (3 / 10) \<and>
    penalized_rsq env data locations groups val_period mode model_type 3 = Inr (25 / 100)"
  then show "select_window env data locations groups val_period max_window mode model_type =
      Inr (2, 3 / 10)"
    by (simp add: select_window_def range_int_def upto.simps sweep_step_def)
qed

lemma penalized_example:
  "penalized_rsq env1 data0 [''CA''] [1] (201540, 201617) ''all'' ''lin'' 0 = Inr (1 / 10)"
  "penalized_rsq env1 data0 [''CA''] [1] (201540, 201617) ''all'' ''lin'' 1 = Inr (5 / 100)"
  "penalized_rsq env1 data0 [''CA''] [1] (201540, 201617) ''all'' ''lin'' 2 = Inr (3 / 10)"
  "penalized_rsq env1 data0 [''CA''] [1] (201540, 201617) ''all'' ''lin'' 3 = Inr (25 / 100)"
  by (simp_all add: penalized_rsq_def flatten_double_list_def
      validate_def training_periods_def range_int_def train_model_def family_of_def
      validate_week_def validate_cell_def append_cell_def empty_results_def
      create_double_list_def env1_def env0_def data0_def Let_def)

theorem select_window_rule_witness:
  "select_window env1 data0 [''CA''] [1] (201540, 201617) 3 ''all'' ''lin'' = Inr (2, 3 / 10) \<and>
   penalized_rsq env1 data0 [''CA''] [1] (201540, 201617) ''all'' ''lin'' 2 = Inr (3 / 10) \<and>
   (\<exists>s. penalized_rsq env1 data0 [''CA''] [1] (201540, 201617) ''all'' ''lin'' 1 = Inr s \<and>
        s \<le> 3 / 10 \<and> s < 3 / 10) \<and>
   (\<exists>s. penalized_rsq env1 data0 [''CA''] [1] (201540, 201617) ''all'' ''lin'' 3 = Inr s \<and>
        s \<le> 3 / 10)"
proof -
  note t = select_window_rule[of env1 data0 "[''CA'']" "[1]" "(201540, 201617)" 3 "''all''" "''lin''" 2 "3 / 10"]
  have sel: "select_window env1 data0 [''CA''] [1] (201540, 201617) 3 ''all'' ''lin'' = Inr (2, 3 / 10)"
    using t[THEN conjunct2] penalized_example by simp
  note r = t[THEN conjunct1, THEN mp, OF sel, THEN conjunct2, THEN conjunct1]
  have w1: "(1::int) \<in> set (range_int 0 (3 + 1))" and w3: "(3::int) \<in> set (range_int 0 (3 + 1))"
    by (simp_all add: range_int_def)
  have a: "\<exists>s. penalized_rsq env1 data0 [''CA''] [1] (201540, 201617) ''all'' ''lin'' 1 = Inr s \<and>
        s \<le> 3 / 10 \<and> s < 3 / 10"
    using r[THEN bspec, OF w1] by simp
  have b: "\<exists>s. penalized_rsq env1 data0 [''CA''] [1] (201540, 201617) ''all'' ''lin'' 3 = Inr s \<and>
        s \<le> 3 / 10"
    using r[THEN bspec, OF w3] by auto
  show ?thesis using sel penalized_example(3) a b by (intro conjI)
qed

section \<open>Properties of \<open>predict\<close>\<close>

subsection \<open>The prediction loops\<close>







subsection \<open>The assignment loops\<close>








subsection \<open>The loops over the groupings\<close>








subsection \<open>An example run\<close>









section \<open>Properties of \<open>run_nowcast_experiment\<close>\<close>

subsection \<open>What the loops may write\<close>

lemma frame_refl: "frame W h h"
  by (simp add: frame_def)

lemma frame_trans: "frame W1 h h1 \<Longrightarrow> frame W2 h1 h2 \<Longrightarrow> frame (W1 \<union> W2) h h2"
  by (simp add: frame_def)

lemma frame_mono: "frame W h h' \<Longrightarrow> W \<subseteq> W' \<Longrightarrow> frame W' h h'"
  unfolding frame_def by blast

lemma frame_cell: "frame W h h' \<Longrightarrow> (a, i, j) \<notin> W \<Longrightarrow> h' ! a ! i ! j = h ! a ! i ! j"
  by (simp add: frame_def)

lemma frame_matrix:
  assumes "frame W h h'" and "\<And>i j. (a, i, j) \<notin> W"
  shows "h' ! a = h ! a"
proof (rule nth_equalityI)
  show "length (h' ! a) = length (h ! a)" using assms(1) by (simp add: frame_def)
next
  fix i assume "i < length (h' ! a)"
  show "h' ! a ! i = h ! a ! i"
  proof (rule nth_equalityI)
    show "length (h' ! a ! i) = length (h ! a ! i)" using assms(1) by (simp add: frame_def)
  next
    fix j assume "j < length (h' ! a ! i)"
    show "h' ! a ! i ! j = h ! a ! i ! j" using assms by (simp add: frame_def)
  qed
qed

lemma for_each_frame:
  assumes "for_each xs body h = Inr h'"
    and "\<And>x t t'. x \<in> set xs \<Longrightarrow> body x t = Inr t' \<Longrightarrow> frame (W x) t t'"
  shows "frame (\<Union>x\<in>set xs. W x) h h'"
proof (rule for_each_invariant[OF assms(1), of "\<lambda>t. frame (\<Union>x\<in>set xs. W x) h t"])
  show "frame (\<Union>x\<in>set xs. W x) h h" by (rule frame_refl)
next
  fix x t t'
  assume x: "x \<in> set xs" and f: "frame (\<Union>x\<in>set xs. W x) h t" and b: "body x t = Inr t'"
  have "frame ((\<Union>x\<in>set xs. W x) \<union> W x) h t'" using frame_trans[OF f assms(2)[OF x b]] .
  then show "frame (\<Union>x\<in>set xs. W x) h t'" by (rule frame_mono) (use x in auto)
qed

lemma heap_set_effect:
  assumes "heap_set h a i j v = Inr h'"
  shows "frame {(a, i, j)} h h' \<and> h' ! a ! i ! j = v"
proof -
  have r: "a < length h" "i < length (h ! a)" "j < length (h ! a ! i)"
    and h': "h' = h[a := (h ! a)[i := (h ! a ! i)[j := v]]]"
    using assms by (auto simp: heap_set_def split: if_splits)
  have 1: "length h' = length h" by (simp add: h')
  have 2: "length (h' ! a') = length (h ! a')" for a'
    using r by (cases "a' = a") (simp_all add: h')
  have 3: "length (h' ! a' ! i') = length (h ! a' ! i')" for a' i'
    using r by (cases "a' = a"; cases "i' = i") (simp_all add: h')
  have 4: "h' ! a' ! i' ! j' = h ! a' ! i' ! j'" if "(a', i', j') \<noteq> (a, i, j)" for a' i' j'
    using r that by (cases "a' = a"; cases "i' = i"; cases "j' = j") (simp_all add: h')
  have 5: "h' ! a ! i ! j = v" using r by (simp add: h')
  show ?thesis using 1 2 3 4 5 by (simp add: frame_def)
qed

lemma store_cell_effect:
  assumes "store_cell mseG rsqG (rsq, mse) w b l g h = Inr h'"
  shows "frame {(mseG ! l ! g, w, b), (rsqG ! l ! g, w, b)} h h' \<and>
         h' ! (rsqG ! l ! g) ! w ! b = to_float (rsq ! l ! g) \<and>
         (mseG ! l ! g \<noteq> rsqG ! l ! g \<longrightarrow> h' ! (mseG ! l ! g) ! w ! b = to_float (mse ! l ! g))"
proof -
  from assms obtain t where
    t: "heap_set h (mseG ! l ! g) w b (to_float (mse ! l ! g)) = Inr t"
       "heap_set t (rsqG ! l ! g) w b (to_float (rsq ! l ! g)) = Inr h'"
    by (auto simp: store_cell_def split: sum.splits)
  note a = heap_set_effect[OF t(1)] and b = heap_set_effect[OF t(2)]
  have f: "frame ({(mseG ! l ! g, w, b)} \<union> {(rsqG ! l ! g, w, b)}) h h'"
    using frame_trans a b by blast
  have "mseG ! l ! g \<noteq> rsqG ! l ! g \<longrightarrow> h' ! (mseG ! l ! g) ! w ! b = to_float (mse ! l ! g)"
    using a b frame_cell[of "{(rsqG ! l ! g, w, b)}" t h' "mseG ! l ! g" w b] by auto
  then show ?thesis using f b by (simp add: insert_commute)
qed

text \<open>What one row of the store loop, and the whole loop of one report, may write.\<close>

lemma store_row_frame:
  assumes "for_each [0..<m] (store_cell mseG rsqG report w b l) h = Inr h'"
  shows "frame {(a, i, j). i = w \<and> j = b \<and> (\<exists>g<m. a = mseG ! l ! g \<or> a = rsqG ! l ! g)} h h'"
proof -
  obtain rsq mse where r: "report = (rsq, mse)" by (cases report) auto
  have "frame (\<Union>g\<in>set [0..<m]. {(mseG ! l ! g, w, b), (rsqG ! l ! g, w, b)}) h h'"
    by (rule for_each_frame[OF assms]) (use store_cell_effect r in blast)
  then show ?thesis by (rule frame_mono) auto
qed

lemma store_grid_frame:
  assumes "for_each [0..<n] (\<lambda>l. for_each [0..<m] (store_cell mseG rsqG report w b l)) h = Inr h'"
  shows "frame {(a, i, j). i = w \<and> j = b \<and>
                 (\<exists>l<n. \<exists>g<m. a = mseG ! l ! g \<or> a = rsqG ! l ! g)} h h'"
proof -
  have "frame (\<Union>l\<in>set [0..<n].
      {(a, i, j). i = w \<and> j = b \<and> (\<exists>g<m. a = mseG ! l ! g \<or> a = rsqG ! l ! g)}) h h'"
    by (rule for_each_frame[OF assms]) (rule store_row_frame)
  then show ?thesis by (rule frame_mono) auto
qed

lemma fill_cell_frame:
  assumes "fill_cell env path data locs grps period mode mt mseG rsqG w b h = Inr h'"
  shows "frame {(a, i, j). i = w \<and> j = b \<and>
                 (\<exists>l<length locs. \<exists>g<length grps. a = mseG ! l ! g \<or> a = rsqG ! l ! g)} h h'"
  using assms store_grid_frame
  by (auto simp: fill_cell_def split: sum.splits)

lemma fill_row_frame:
  assumes "for_each [0..<w + 1]
             (fill_cell env path data locs grps period mode mt mseG rsqG w) h = Inr h'"
  shows "frame {(a, i, j). i = w \<and> j \<le> w \<and>
                 (\<exists>l<length locs. \<exists>g<length grps. a = mseG ! l ! g \<or> a = rsqG ! l ! g)} h h'"
proof -
  have "frame (\<Union>b\<in>set [0..<w + 1]. {(a, i, j). i = w \<and> j = b \<and>
                 (\<exists>l<length locs. \<exists>g<length grps. a = mseG ! l ! g \<or> a = rsqG ! l ! g)}) h h'"
    by (rule for_each_frame[OF assms]) (rule fill_cell_frame)
  then show ?thesis by (rule frame_mono) auto
qed

lemma fill_grid_frame:
  assumes "fill_grid env path data locs grps period mode mt mseG rsqG max_window h = Inr h'"
  shows "frame {(a, i, j). j \<le> i \<and> i < nat (max_window + 1) \<and>
                 (\<exists>l<length locs. \<exists>g<length grps. a = mseG ! l ! g \<or> a = rsqG ! l ! g)} h h'"
proof -
  have "frame (\<Union>w\<in>set [0..<nat (max_window + 1)]. {(a, i, j). i = w \<and> j \<le> w \<and>
                 (\<exists>l<length locs. \<exists>g<length grps. a = mseG ! l ! g \<or> a = rsqG ! l ! g)}) h h'"
    by (rule for_each_frame[OF assms[unfolded fill_grid_def]]) (rule fill_row_frame)
  then show ?thesis by (rule frame_mono) auto
qed

subsection \<open>What the loops do write\<close>

lemma cell_reported_frame:
  assumes "frame W h h'"
    and "(rsqG ! l ! g, w, b) \<notin> W" and "(mseG ! l ! g, w, b) \<notin> W"
    and "cell_reported env path data locs grps period mode mt mseG rsqG l g w b h"
  shows "cell_reported env path data locs grps period mode mt mseG rsqG l g w b h'"
  using assms(4) frame_cell[OF assms(1,2)] frame_cell[OF assms(1,3)]
  by (auto simp: cell_reported_def split: sum.splits)

lemma store_row_value:
  assumes loop: "for_each [0..<m] (store_cell mseG rsqG (rsq, mse) w b l) h = Inr h'"
    and g0: "g0 < m" and l: "l < n" and sep: "separate mseG rsqG n m"
  shows "h' ! (rsqG ! l ! g0) ! w ! b = to_float (rsq ! l ! g0) \<and>
         h' ! (mseG ! l ! g0) ! w ! b = to_float (mse ! l ! g0)"
proof (rule for_each_establish[OF loop, of g0])
  show "g0 \<in> set [0..<m]" using g0 by simp
next
  fix t t' assume "store_cell mseG rsqG (rsq, mse) w b l g0 t = Inr t'"
  moreover have "mseG ! l ! g0 \<noteq> rsqG ! l ! g0" using sep l g0 by (simp add: separate_def)
  ultimately show "t' ! (rsqG ! l ! g0) ! w ! b = to_float (rsq ! l ! g0) \<and>
         t' ! (mseG ! l ! g0) ! w ! b = to_float (mse ! l ! g0)"
    using store_cell_effect by blast
next
  fix y t t'
  assume y: "y \<in> set [0..<m]"
    and p: "t ! (rsqG ! l ! g0) ! w ! b = to_float (rsq ! l ! g0) \<and>
            t ! (mseG ! l ! g0) ! w ! b = to_float (mse ! l ! g0)"
    and s: "store_cell mseG rsqG (rsq, mse) w b l y t = Inr t'"
  have ne: "mseG ! l ! g0 \<noteq> rsqG ! l ! g0" using sep l g0 by (simp add: separate_def)
  show "t' ! (rsqG ! l ! g0) ! w ! b = to_float (rsq ! l ! g0) \<and>
         t' ! (mseG ! l ! g0) ! w ! b = to_float (mse ! l ! g0)"
  proof (cases "y = g0")
    case True
    then show ?thesis using store_cell_effect[OF s] ne by blast
  next
    case False
    have ym: "y < m" using y by simp
    have d: "rsqG ! l ! g0 \<noteq> rsqG ! l ! y" "rsqG ! l ! g0 \<noteq> mseG ! l ! y"
      "mseG ! l ! g0 \<noteq> mseG ! l ! y" "mseG ! l ! g0 \<noteq> rsqG ! l ! y"
      using sep l g0 ym False unfolding separate_def by metis+
    have f: "frame {(mseG ! l ! y, w, b), (rsqG ! l ! y, w, b)} t t'"
      using store_cell_effect[OF s] by blast
    have "t' ! (rsqG ! l ! g0) ! w ! b = t ! (rsqG ! l ! g0) ! w ! b"
      by (rule frame_cell[OF f]) (use d in simp)
    moreover have "t' ! (mseG ! l ! g0) ! w ! b = t ! (mseG ! l ! g0) ! w ! b"
      by (rule frame_cell[OF f]) (use d in simp)
    ultimately show ?thesis using p by simp
  qed
qed

lemma store_grid_value:
  assumes loop: "for_each [0..<n]
                   (\<lambda>l. for_each [0..<m] (store_cell mseG rsqG (rsq, mse) w b l)) h = Inr h'"
    and l0: "l0 < n" and g0: "g0 < m" and sep: "separate mseG rsqG n m"
  shows "h' ! (rsqG ! l0 ! g0) ! w ! b = to_float (rsq ! l0 ! g0) \<and>
         h' ! (mseG ! l0 ! g0) ! w ! b = to_float (mse ! l0 ! g0)"
proof (rule for_each_establish[OF loop, of l0])
  show "l0 \<in> set [0..<n]" using l0 by simp
next
  fix t t' assume "for_each [0..<m] (store_cell mseG rsqG (rsq, mse) w b l0) t = Inr t'"
  then show "t' ! (rsqG ! l0 ! g0) ! w ! b = to_float (rsq ! l0 ! g0) \<and>
         t' ! (mseG ! l0 ! g0) ! w ! b = to_float (mse ! l0 ! g0)"
    by (rule store_row_value[OF _ g0 l0 sep])
next
  fix y t t'
  assume y: "y \<in> set [0..<n]"
    and p: "t ! (rsqG ! l0 ! g0) ! w ! b = to_float (rsq ! l0 ! g0) \<and>
            t ! (mseG ! l0 ! g0) ! w ! b = to_float (mse ! l0 ! g0)"
    and s: "for_each [0..<m] (store_cell mseG rsqG (rsq, mse) w b y) t = Inr t'"
  show "t' ! (rsqG ! l0 ! g0) ! w ! b = to_float (rsq ! l0 ! g0) \<and>
         t' ! (mseG ! l0 ! g0) ! w ! b = to_float (mse ! l0 ! g0)"
  proof (cases "y = l0")
    case True
    then show ?thesis using store_row_value[OF _ g0 l0 sep] s by blast
  next
    case False
    have yn: "y < n" using y by simp
    have d: "\<And>g. g < m \<Longrightarrow> rsqG ! l0 ! g0 \<noteq> rsqG ! y ! g \<and> rsqG ! l0 ! g0 \<noteq> mseG ! y ! g \<and>
      mseG ! l0 ! g0 \<noteq> mseG ! y ! g \<and> mseG ! l0 ! g0 \<noteq> rsqG ! y ! g"
      using sep l0 g0 yn False unfolding separate_def by metis
    note f = store_row_frame[OF s]
    have "t' ! (rsqG ! l0 ! g0) ! w ! b = t ! (rsqG ! l0 ! g0) ! w ! b"
      by (rule frame_cell[OF f]) (use d in auto)
    moreover have "t' ! (mseG ! l0 ! g0) ! w ! b = t ! (mseG ! l0 ! g0) ! w ! b"
      by (rule frame_cell[OF f]) (use d in auto)
    ultimately show ?thesis using p by simp
  qed
qed

lemma fill_cell_value:
  assumes "fill_cell env path data locs grps period mode mt mseG rsqG w b h = Inr h'"
    and "l0 < length locs" and "g0 < length grps"
    and "separate mseG rsqG (length locs) (length grps)"
  shows "cell_reported env path data locs grps period mode mt mseG rsqG l0 g0 w b h'"
proof -
  from assms(1) obtain rsq mse where
    r: "nowcast_report env path data locs grps period (int w) (int b) mode mt = Inr (rsq, mse)"
    and loop: "for_each [0..<length locs]
        (\<lambda>l. for_each [0..<length grps] (store_cell mseG rsqG (rsq, mse) w b l)) h = Inr h'"
    by (auto simp: fill_cell_def split: sum.splits)
  from store_grid_value[OF loop assms(2-4)] r show ?thesis
    by (simp add: cell_reported_def)
qed

lemma fill_row_value:
  assumes loop: "for_each [0..<w + 1]
             (fill_cell env path data locs grps period mode mt mseG rsqG w) h = Inr h'"
    and b0: "b0 \<le> w" and l0: "l0 < length locs" and g0: "g0 < length grps"
    and sep: "separate mseG rsqG (length locs) (length grps)"
  shows "cell_reported env path data locs grps period mode mt mseG rsqG l0 g0 w b0 h'"
proof (rule for_each_establish[OF loop, of b0])
  show "b0 \<in> set [0..<w + 1]" using b0 by auto
next
  fix t t' assume "fill_cell env path data locs grps period mode mt mseG rsqG w b0 t = Inr t'"
  then show "cell_reported env path data locs grps period mode mt mseG rsqG l0 g0 w b0 t'"
    by (rule fill_cell_value[OF _ l0 g0 sep])
next
  fix y t t'
  assume y: "y \<in> set [0..<w + 1]"
    and p: "cell_reported env path data locs grps period mode mt mseG rsqG l0 g0 w b0 t"
    and s: "fill_cell env path data locs grps period mode mt mseG rsqG w y t = Inr t'"
  show "cell_reported env path data locs grps period mode mt mseG rsqG l0 g0 w b0 t'"
  proof (cases "y = b0")
    case True
    then show ?thesis using fill_cell_value[OF _ l0 g0 sep] s by blast
  next
    case False
    show ?thesis
      by (rule cell_reported_frame[OF fill_cell_frame[OF s] _ _ p]) (use False in auto)
  qed
qed

lemma fill_grid_value:
  assumes fill: "fill_grid env path data locs grps period mode mt mseG rsqG max_window h = Inr h'"
    and w0: "w0 < nat (max_window + 1)" and b0: "b0 \<le> w0"
    and l0: "l0 < length locs" and g0: "g0 < length grps"
    and sep: "separate mseG rsqG (length locs) (length grps)"
  shows "cell_reported env path data locs grps period mode mt mseG rsqG l0 g0 w0 b0 h'"
proof (rule for_each_establish[OF fill[unfolded fill_grid_def], of w0])
  show "w0 \<in> set [0..<nat (max_window + 1)]" using w0 by simp
next
  fix t t'
  assume "for_each [0..<w0 + 1]
      (fill_cell env path data locs grps period mode mt mseG rsqG w0) t = Inr t'"
  then show "cell_reported env path data locs grps period mode mt mseG rsqG l0 g0 w0 b0 t'"
    by (rule fill_row_value[OF _ b0 l0 g0 sep])
next
  fix y t t'
  assume y: "y \<in> set [0..<nat (max_window + 1)]"
    and p: "cell_reported env path data locs grps period mode mt mseG rsqG l0 g0 w0 b0 t"
    and s: "for_each [0..<y + 1]
      (fill_cell env path data locs grps period mode mt mseG rsqG y) t = Inr t'"
  show "cell_reported env path data locs grps period mode mt mseG rsqG l0 g0 w0 b0 t'"
  proof (cases "y = w0")
    case True
    then show ?thesis using fill_row_value[OF _ b0 l0 g0 sep] s by blast
  next
    case False
    show ?thesis
      by (rule cell_reported_frame[OF fill_row_frame[OF s] _ _ p]) (use False in auto)
  qed
qed

subsection \<open>Allocation of the grids\<close>

lemma index_bound:
  fixes l g n m :: nat
  assumes "l < n" and "g < m"
  shows "l * m + g < n * m"
proof -
  have "l * m + g < l * m + m" using assms(2) by simp
  also have "\<dots> = Suc l * m" by simp
  also have "\<dots> \<le> n * m" using assms(1) by (intro mult_le_mono1) simp
  finally show ?thesis .
qed

lemma index_inj:
  fixes l g l' g' m :: nat
  assumes "g < m" and "g' < m" and "l * m + g = l' * m + g'"
  shows "l = l' \<and> g = g'"
proof -
  have "(l * m + g) div m = l" "(l' * m + g') div m = l'" using assms(1,2) by simp_all
  then have "l = l'" using assms(3) by simp
  then show ?thesis using assms(3) by simp
qed

lemma create_double_list_mat_effect:
  assumes "create_double_list_mat t n m h = (G, h')" and "t < length h"
  shows "length h' = length h + n * m"
    and "\<forall>a<length h. h' ! a = h ! a"
    and "\<forall>l<n. \<forall>g<m. G ! l ! g = length h + l * m + g \<and> G ! l ! g < length h' \<and>
           h' ! (G ! l ! g) = h ! t"
proof -
  have G: "G = map (\<lambda>l. map (\<lambda>g. length h + l * m + g) [0..<m]) [0..<n]"
    and h': "h' = h @ replicate (n * m) (h ! t)"
    using assms(1) by (simp_all add: create_double_list_mat_def)
  show "length h' = length h + n * m" by (simp add: h')
  show "\<forall>a<length h. h' ! a = h ! a" by (simp add: h' nth_append)
  show "\<forall>l<n. \<forall>g<m. G ! l ! g = length h + l * m + g \<and> G ! l ! g < length h' \<and>
           h' ! (G ! l ! g) = h ! t"
  proof (intro allI impI)
    fix l g assume l: "l < n" and g: "g < m"
    have a: "G ! l ! g = length h + l * m + g" using l g by (simp add: G)
    have b: "l * m + g < n * m" using l g by (rule index_bound)
    show "G ! l ! g = length h + l * m + g \<and> G ! l ! g < length h' \<and> h' ! (G ! l ! g) = h ! t"
      using a b by (simp add: h' nth_append add.assoc)
  qed
qed

lemma create_twice_effect:
  assumes c1: "create_double_list_mat t1 n m h = (mseG, h1)"
    and c2: "create_double_list_mat t2 n m h1 = (rsqG, h2)"
    and t1: "t1 < length h" and t2: "t2 < length h"
  shows "separate mseG rsqG n m"
    and "length h2 = length h + 2 * (n * m)"
    and "\<forall>a<length h. h2 ! a = h ! a"
    and "\<forall>l<n. \<forall>g<m. length h \<le> mseG ! l ! g \<and> mseG ! l ! g < length h2 \<and>
           length h \<le> rsqG ! l ! g \<and> rsqG ! l ! g < length h2 \<and>
           h2 ! (mseG ! l ! g) = h ! t1 \<and> h2 ! (rsqG ! l ! g) = h ! t2"
proof -
  note a = create_double_list_mat_effect[OF c1 t1]
  have t2': "t2 < length h1" using a(1) t2 by simp
  note b = create_double_list_mat_effect[OF c2 t2']
  have mse: "\<And>l g. l < n \<Longrightarrow> g < m \<Longrightarrow> mseG ! l ! g = length h + (l * m + g)"
    using a(3) by simp
  have rsq: "\<And>l g. l < n \<Longrightarrow> g < m \<Longrightarrow> rsqG ! l ! g = length h + n * m + (l * m + g)"
    using b(3) a(1) by simp
  have bound: "\<And>l g. l < n \<Longrightarrow> g < m \<Longrightarrow> l * m + g < n * m" by (rule index_bound)
  show "separate mseG rsqG n m"
    unfolding separate_def
  proof (intro allI impI conjI)
    fix l g l' g' assume r: "l < n" "g < m" "l' < n" "g' < m"
    {
      assume "mseG ! l ! g = mseG ! l' ! g'"
      then have "l * m + g = l' * m + g'" using mse r by simp
      then show "l = l'" "g = g'" using index_inj r by blast+
    }
    {
      assume "rsqG ! l ! g = rsqG ! l' ! g'"
      then have "l * m + g = l' * m + g'" using rsq r by simp
      then show "l = l'" "g = g'" using index_inj r by blast+
    }
    show "mseG ! l ! g \<noteq> rsqG ! l' ! g'"
      using mse[OF r(1,2)] rsq[OF r(3,4)] bound[OF r(1,2)] by simp
  qed
  show "length h2 = length h + 2 * (n * m)" using a(1) b(1) by simp
  show "\<forall>a<length h. h2 ! a = h ! a" using a(1,2) b(2) by simp
  show "\<forall>l<n. \<forall>g<m. length h \<le> mseG ! l ! g \<and> mseG ! l ! g < length h2 \<and>
           length h \<le> rsqG ! l ! g \<and> rsqG ! l ! g < length h2 \<and>
           h2 ! (mseG ! l ! g) = h ! t1 \<and> h2 ! (rsqG ! l ! g) = h ! t2"
  proof (intro allI impI)
    fix l g assume l: "l < n" and g: "g < m"
    have m1: "mseG ! l ! g < length h1" "h1 ! (mseG ! l ! g) = h ! t1"
      using a(3)[rule_format, OF l g] by blast+
    have c1: "h2 ! (mseG ! l ! g) = h1 ! (mseG ! l ! g)" using b(2) m1(1) by simp
    have c2: "h1 ! t2 = h ! t2" using a(2) t2 by simp
    have r1: "rsqG ! l ! g < length h2" "h2 ! (rsqG ! l ! g) = h1 ! t2"
      using b(3)[rule_format, OF l g] by blast+
    have m2: "length h \<le> mseG ! l ! g" using mse[OF l g] by simp
    have r2: "length h \<le> rsqG ! l ! g" using rsq[OF l g] by simp
    have m3: "mseG ! l ! g < length h2" using m1(1) b(1) by simp
    show "length h \<le> mseG ! l ! g \<and> mseG ! l ! g < length h2 \<and>
           length h \<le> rsqG ! l ! g \<and> rsqG ! l ! g < length h2 \<and>
           h2 ! (mseG ! l ! g) = h ! t1 \<and> h2 ! (rsqG ! l ! g) = h ! t2"
      using c1 c2 r1 r2 m1(2) m2 m3 by simp
  qed
qed

subsection \<open>The sentinel above the diagonal\<close>

lemma sentinel_above_append:
  assumes "sentinel_above N h"
    and "length M = N"
    and "\<forall>i<N. length (M ! i) = N \<and> (\<forall>j<N. i < j \<longrightarrow> M ! i ! j = NegInf)"
  shows "sentinel_above N (h @ replicate k M)"
  unfolding sentinel_above_def
proof (intro allI impI)
  fix a assume a: "a < length (h @ replicate k M)"
  show "length ((h @ replicate k M) ! a) = N \<and>
        (\<forall>i<N. length ((h @ replicate k M) ! a ! i) = N \<and>
           (\<forall>j<N. i < j \<longrightarrow> (h @ replicate k M) ! a ! i ! j = NegInf))"
  proof (cases "a < length h")
    case True
    then have "(h @ replicate k M) ! a = h ! a" by (simp add: nth_append)
    then show ?thesis using assms(1) True by (simp add: sentinel_above_def)
  next
    case False
    then have "a - length h < k" using a by simp
    then have "(h @ replicate k M) ! a = M" using False by (simp add: nth_append)
    then show ?thesis using assms(2,3) by simp
  qed
qed

lemma sentinel_above_frame:
  assumes "sentinel_above N h" and "frame W h h'" and "\<And>a i j. (a, i, j) \<in> W \<Longrightarrow> j \<le> i"
  shows "sentinel_above N h'"
  unfolding sentinel_above_def
proof (intro allI impI conjI)
  fix a assume a: "a < length h'"
  then have ah: "a < length h" using assms(2) by (simp add: frame_def)
  show "length (h' ! a) = N"
    using assms(1,2) ah by (simp add: frame_def sentinel_above_def)
  fix i assume i: "i < N"
  show "length (h' ! a ! i) = N"
    using assms(1,2) ah i by (simp add: frame_def sentinel_above_def)
  fix j assume j: "j < N" and ij: "i < j"
  have "(a, i, j) \<notin> W" using assms(3)[of a i j] ij by auto
  then have "h' ! a ! i ! j = h ! a ! i ! j" using assms(2) by (rule frame_cell[rotated])
  then show "h' ! a ! i ! j = NegInf" using assms(1) ah i j ij by (simp add: sentinel_above_def)
qed

lemma sentinel_above_template:
  assumes "sentinel_above N h" and "t < length h"
  shows "length (h ! t) = N"
    and "\<forall>i<N. length (h ! t ! i) = N \<and> (\<forall>j<N. i < j \<longrightarrow> h ! t ! i ! j = NegInf)"
  using assms by (simp_all add: sentinel_above_def)

subsection \<open>One pass of the experiment\<close>

lemma experiment_group_parts:
  assumes "experiment_group env path data period mw mode mt t1 t2 locs grps (h, results) =
             Inr (h', results')"
  shows "\<exists>mseG rsqG h1 h2.
     create_double_list_mat t1 (length locs) (length grps) h = (mseG, h1) \<and>
     create_double_list_mat t2 (length locs) (length grps) h1 = (rsqG, h2) \<and>
     fill_grid env path data locs grps period mode mt mseG rsqG mw h2 = Inr h' \<and>
     for_each [0..<length locs]
       (\<lambda>l. for_each [0..<length grps]
          (summary_cell env path period locs grps mseG rsqG h' l)) results = Inr results'"
  using assms
  by (auto simp: experiment_group_def split: prod.splits sum.splits)

lemma fill_after_create:
  assumes c1: "create_double_list_mat t1 (length locs) (length grps) h = (mseG, h1)"
    and c2: "create_double_list_mat t2 (length locs) (length grps) h1 = (rsqG, h2)"
    and fill: "fill_grid env path data locs grps period mode mt mseG rsqG mw h2 = Inr h'"
    and t1: "t1 < length h" and t2: "t2 < length h"
  shows "length h' = length h + 2 * (length locs * length grps)"
    and "\<forall>a<length h. h' ! a = h ! a"
    and "sentinel_above N h \<Longrightarrow> sentinel_above N h'"
proof -
  note c = create_twice_effect[OF c1 c2 t1 t2]
  note f = fill_grid_frame[OF fill]
  show "length h' = length h + 2 * (length locs * length grps)"
    using f c(2) by (simp add: frame_def)
  show "\<forall>a<length h. h' ! a = h ! a"
  proof (intro allI impI)
    fix a assume a: "a < length h"
    have "h' ! a = h2 ! a"
    proof (rule frame_matrix[OF f])
      fix i j
      have "\<And>l g. l < length locs \<Longrightarrow> g < length grps \<Longrightarrow> a \<noteq> mseG ! l ! g \<and> a \<noteq> rsqG ! l ! g"
        using c(4) a by fastforce
      then show "(a, i, j) \<notin> {(a, i, j). j \<le> i \<and> i < nat (mw + 1) \<and>
          (\<exists>l<length locs. \<exists>g<length grps. a = mseG ! l ! g \<or> a = rsqG ! l ! g)}"
        by blast
    qed
    then show "h' ! a = h ! a" using c(3) a by simp
  qed
  assume s: "sentinel_above N h"
  have h1: "h1 = h @ replicate (length locs * length grps) (h ! t1)"
    using c1 by (simp add: create_double_list_mat_def)
  have h2: "h2 = h1 @ replicate (length locs * length grps) (h1 ! t2)"
    using c2 by (simp add: create_double_list_mat_def)
  have s1: "sentinel_above N h1"
    unfolding h1 by (rule sentinel_above_append[OF s sentinel_above_template[OF s t1]])
  have t2': "t2 < length h1" using t2 by (simp add: h1)
  have s2: "sentinel_above N h2"
    unfolding h2 by (rule sentinel_above_append[OF s1 sentinel_above_template[OF s1 t2']])
  show "sentinel_above N h'"
    by (rule sentinel_above_frame[OF s2 f]) auto
qed

lemma summary_cell_effect:
  assumes "summary_cell env path period locs grps mseG rsqG h l g results = Inr results'"
  shows "\<exists>v. amax (h ! (rsqG ! l ! g)) = Inr v \<and> results' = results((period, grps ! g) \<mapsto> v)"
  using assms by (auto simp: summary_cell_def Let_def split: sum.splits)

lemma summary_loop_entries:
  assumes loop: "for_each [0..<n]
       (\<lambda>l. for_each [0..<m] (summary_cell env path period locs grps mseG rsqG h l))
       results = Inr results'"
    and addr: "\<forall>l<n. \<forall>g<m. rsqG ! l ! g < length h"
    and old: "\<forall>key v. results key = Some v \<longrightarrow> (\<exists>a<length h. amax (h ! a) = Inr v)"
  shows "\<forall>key v. results' key = Some v \<longrightarrow> (\<exists>a<length h. amax (h ! a) = Inr v)"
proof (rule for_each_invariant[OF loop,
      of "\<lambda>r. \<forall>key v. r key = Some v \<longrightarrow> (\<exists>a<length h. amax (h ! a) = Inr v)", OF old])
  fix l t t'
  assume l: "l \<in> set [0..<n]"
    and p: "\<forall>key v. t key = Some v \<longrightarrow> (\<exists>a<length h. amax (h ! a) = Inr v)"
    and row: "for_each [0..<m] (summary_cell env path period locs grps mseG rsqG h l) t = Inr t'"
  show "\<forall>key v. t' key = Some v \<longrightarrow> (\<exists>a<length h. amax (h ! a) = Inr v)"
  proof (rule for_each_invariant[OF row,
      of "\<lambda>r. \<forall>key v. r key = Some v \<longrightarrow> (\<exists>a<length h. amax (h ! a) = Inr v)", OF p])
    fix g u u'
    assume g: "g \<in> set [0..<m]"
      and q: "\<forall>key v. u key = Some v \<longrightarrow> (\<exists>a<length h. amax (h ! a) = Inr v)"
      and c: "summary_cell env path period locs grps mseG rsqG h l g u = Inr u'"
    from summary_cell_effect[OF c] obtain v where
      v: "amax (h ! (rsqG ! l ! g)) = Inr v" "u' = u((period, grps ! g) \<mapsto> v)" by blast
    have "rsqG ! l ! g < length h" using addr l g by simp
    then show "\<forall>key v. u' key = Some v \<longrightarrow> (\<exists>a<length h. amax (h ! a) = Inr v)"
      using q v by (auto simp: fun_upd_def)
  qed
qed


lemma experiment_group_inv:
  assumes e: "experiment_group env path data period mw mode mt 0 1 locs grps st = Inr st'"
    and i: "run_inv N st"
  shows "run_inv N st'"
proof -
  obtain h results where st: "st = (h, results)" by (cases st) auto
  obtain h' results' where st': "st' = (h', results')" by (cases st') auto
  have len: "2 \<le> length h" and s: "sentinel_above N h"
    and old: "\<forall>key v. results key = Some v \<longrightarrow> (\<exists>a<length h. amax (h ! a) = Inr v)"
    using i by (simp_all add: run_inv_def st)
  have t1: "0 < length h" and t2: "1 < length h" using len by linarith+
  from experiment_group_parts[OF e[unfolded st st']] obtain mseG rsqG h1 h2 where
    c1: "create_double_list_mat 0 (length locs) (length grps) h = (mseG, h1)"
    and c2: "create_double_list_mat 1 (length locs) (length grps) h1 = (rsqG, h2)"
    and fill: "fill_grid env path data locs grps period mode mt mseG rsqG mw h2 = Inr h'"
    and sum: "for_each [0..<length locs]
       (\<lambda>l. for_each [0..<length grps]
          (summary_cell env path period locs grps mseG rsqG h' l)) results = Inr results'"
    by blast
  note f = fill_after_create[OF c1 c2 fill t1 t2]
  note c = create_twice_effect[OF c1 c2 t1 t2]
  have lh: "length h' = length h2" using fill_grid_frame[OF fill] by (simp add: frame_def)
  have addr: "\<forall>l<length locs. \<forall>g<length grps. rsqG ! l ! g < length h'"
    using c(4) lh by simp
  have old': "\<forall>key v. results key = Some v \<longrightarrow> (\<exists>a<length h'. amax (h' ! a) = Inr v)"
  proof (intro allI impI)
    fix key v assume "results key = Some v"
    then obtain a where a: "a < length h" "amax (h ! a) = Inr v" using old by blast
    have "h' ! a = h ! a" using f(2) a(1) by simp
    moreover have "a < length h'" using f(1) a(1) by simp
    ultimately show "\<exists>a<length h'. amax (h' ! a) = Inr v" using a(2) by auto
  qed
  note new = summary_loop_entries[OF sum addr old']
  show ?thesis
    using len f(1) f(3)[OF s] new by (simp add: run_inv_def st')
qed

lemma experiment_period_inv:
  assumes e: "experiment_period env data LG GP mw mode mt 0 1 period st = Inr st'"
    and i: "run_inv N st"
  shows "run_inv N st'"
proof -
  let ?path = "''./nowcast/'' @ str_period env period"
  from e have loop: "for_each LG
      (\<lambda>locs. for_each GP (experiment_group env ?path data period mw mode mt 0 1 locs)) st = Inr st'"
    by (auto simp: experiment_period_def Let_def split: sum.splits)
  show ?thesis
  proof (rule for_each_invariant[OF loop, of "run_inv N", OF i])
    fix locs t t'
    assume p: "run_inv N t"
      and row: "for_each GP (experiment_group env ?path data period mw mode mt 0 1 locs) t = Inr t'"
    show "run_inv N t'"
    proof (rule for_each_invariant[OF row, of "run_inv N", OF p])
      fix grps u u'
      assume "run_inv N u"
        and "experiment_group env ?path data period mw mode mt 0 1 locs grps u = Inr u'"
      then show "run_inv N u'" using experiment_group_inv by blast
    qed
  qed
qed

lemma run_parts:
  assumes "run_nowcast_experiment env data LG GP TP mw mode mt = Inr (h, results)"
  shows "0 \<le> mw + 1 \<and>
     for_each TP (experiment_period env data LG GP mw mode mt 0 1)
       ([replicate (nat (mw + 1)) (replicate (nat (mw + 1)) NegInf),
         replicate (nat (mw + 1)) (replicate (nat (mw + 1)) NegInf)], Map.empty) = Inr (h, results)"
  using assms
  by (auto simp: run_nowcast_experiment_def np_full_def split: if_splits sum.splits prod.splits)

lemma run_inv_initial:
  "run_inv N ([replicate N (replicate N NegInf), replicate N (replicate N NegInf)], Map.empty)"
proof -
  have e: "sentinel_above N []" by (simp add: sentinel_above_def)
  have "sentinel_above N ([] @ replicate 2 (replicate N (replicate N NegInf)))"
    by (rule sentinel_above_append[OF e]) simp_all
  then show ?thesis by (simp add: run_inv_def numeral_2_eq_2)
qed

lemma run_inv_final:
  assumes "run_nowcast_experiment env data LG GP TP mw mode mt = Inr (h, results)"
  shows "run_inv (nat (mw + 1)) (h, results)"
proof -
  from run_parts[OF assms] have loop:
    "for_each TP (experiment_period env data LG GP mw mode mt 0 1)
       ([replicate (nat (mw + 1)) (replicate (nat (mw + 1)) NegInf),
         replicate (nat (mw + 1)) (replicate (nat (mw + 1)) NegInf)], Map.empty) = Inr (h, results)"
    by blast
  show ?thesis
    by (rule for_each_invariant[OF loop, of "run_inv (nat (mw + 1))", OF run_inv_initial])
      (rule experiment_period_inv)
qed

text \<open>
  Claim C4. The sweep of reports of one pass writes the store only at cells with
  \<open>backfill \<le> window \<le> max_window\<close>: every other cell of every matrix keeps the value
  it had before the sweep. When \<open>run_nowcast_experiment\<close> returns, every matrix of the
  store (the two templates and the two matrices of every pair of every pass) holds the
  sentinel minus infinity at every cell with \<open>backfill > window\<close>.
\<close>

theorem upper_triangle_stays_sentinel:
  "(fill_grid env path data locations groups period mode model_type mse_results rsq_results
      max_window h = Inr h' \<longrightarrow>
      (\<forall>a window backfill. \<not> (backfill \<le> window \<and> window < nat (max_window + 1)) \<longrightarrow>
         h' ! a ! window ! backfill = h ! a ! window ! backfill)) \<and>
   (run_nowcast_experiment env data location_groups groupings time_periods max_window
      mode model_type = Inr (hf, results) \<longrightarrow>
      (\<forall>a<length hf. \<forall>window backfill.
         window < backfill \<longrightarrow> backfill < nat (max_window + 1) \<longrightarrow>
         hf ! a ! window ! backfill = NegInf))"
proof (intro conjI impI allI)
  fix a window backfill
  assume f: "fill_grid env path data locations groups period mode model_type mse_results
      rsq_results max_window h = Inr h'"
    and n: "\<not> (backfill \<le> window \<and> window < nat (max_window + 1))"
  show "h' ! a ! window ! backfill = h ! a ! window ! backfill"
    by (rule frame_cell[OF fill_grid_frame[OF f]]) (use n in auto)
next
  fix a window backfill
  assume r: "run_nowcast_experiment env data location_groups groupings time_periods max_window
      mode model_type = Inr (hf, results)"
    and a: "a < length hf" and wb: "window < backfill" "backfill < nat (max_window + 1)"
  have "sentinel_above (nat (max_window + 1)) hf"
    using run_inv_final[OF r] by (simp add: run_inv_def)
  then show "hf ! a ! window ! backfill = NegInf"
    using a wb by (simp add: sentinel_above_def)
qed

text \<open>
  Claim C9, with \<open>create_double_list\<close> modelled from the spec as copying the template for
  each entry. After the two grids are created, the matrices of a pair \<open>(l, g)\<close> are
  copies of the templates at fresh addresses, different from the addresses of every
  other pair and of the other metric; after the sweep every matrix that existed before
  (the templates among them) is unchanged, and each cell \<open>(window, backfill)\<close> with
  \<open>backfill \<le> window \<le> max_window\<close> of the pair's matrices holds the metrics reported for
  that very pair; a single store for the pair changes no matrix but the pair's two.
\<close>

theorem each_pair_has_its_own_matrix:
  assumes "t1 < length h" and "t2 < length h"
    and "create_double_list_mat t1 (length locations) (length groups) h = (mse_results, h1)"
    and "create_double_list_mat t2 (length locations) (length groups) h1 = (rsq_results, h2)"
    and "fill_grid env path data locations groups period mode model_type
           mse_results rsq_results max_window h2 = Inr h3"
    and "l < length locations" and "g < length groups"
  shows "h2 ! (mse_results ! l ! g) = h ! t1 \<and> h2 ! (rsq_results ! l ! g) = h ! t2 \<and>
     length h \<le> mse_results ! l ! g \<and> length h \<le> rsq_results ! l ! g \<and>
     separate mse_results rsq_results (length locations) (length groups) \<and>
     (\<forall>a<length h. h3 ! a = h ! a) \<and>
     (\<forall>window backfill. backfill \<le> window \<longrightarrow> window < nat (max_window + 1) \<longrightarrow>
        cell_reported env path data locations groups period mode model_type
          mse_results rsq_results l g window backfill h3) \<and>
     (\<forall>report window backfill hx hy a.
        store_cell mse_results rsq_results report window backfill l g hx = Inr hy \<longrightarrow>
        a \<noteq> mse_results ! l ! g \<longrightarrow> a \<noteq> rsq_results ! l ! g \<longrightarrow> hy ! a = hx ! a)"
proof -
  note c = create_twice_effect[OF assms(3,4,1,2)]
  note f = fill_after_create[OF assms(3,4,5,1,2)]
  have a1: "h2 ! (mse_results ! l ! g) = h ! t1 \<and> h2 ! (rsq_results ! l ! g) = h ! t2 \<and>
     length h \<le> mse_results ! l ! g \<and> length h \<le> rsq_results ! l ! g"
    using c(4) assms(6,7) by simp
  have a2: "\<forall>window backfill. backfill \<le> window \<longrightarrow> window < nat (max_window + 1) \<longrightarrow>
        cell_reported env path data locations groups period mode model_type
          mse_results rsq_results l g window backfill h3"
    using fill_grid_value[OF assms(5) _ _ assms(6,7) c(1)] by blast
  have a3: "\<forall>report window backfill hx hy a.
        store_cell mse_results rsq_results report window backfill l g hx = Inr hy \<longrightarrow>
        a \<noteq> mse_results ! l ! g \<longrightarrow> a \<noteq> rsq_results ! l ! g \<longrightarrow> hy ! a = hx ! a"
  proof (intro allI impI)
    fix report window backfill hx hy a
    assume s: "store_cell mse_results rsq_results report window backfill l g hx = Inr hy"
      and n: "a \<noteq> mse_results ! l ! g" "a \<noteq> rsq_results ! l ! g"
    obtain rsq mse where "report = (rsq, mse)" by (cases report) auto
    with s have fr: "frame {(mse_results ! l ! g, window, backfill),
        (rsq_results ! l ! g, window, backfill)} hx hy"
      using store_cell_effect by blast
    show "hy ! a = hx ! a" by (rule frame_matrix[OF fr]) (use n in simp)
  qed
  show ?thesis using a1 c(1) f(2) a2 a3 by blast
qed

subsection \<open>The results summary\<close>





subsection \<open>An example run of the experiment\<close>

lemma validate_example4:
  "validate env0 data0 [''CA'', ''NY''] [1] (201540, 201617) 0 lw 0 bw ''all'' ''lin'' =
     Inr \<lparr>valid_weeks = [201540, 201617], predictions = [[[1, 2]], [[2, 1]]],
          predictions_lower = [[[6 / 10, 16 / 10]], [[16 / 10, 6 / 10]]],
          predictions_upper = [[[14 / 10, 24 / 10]], [[24 / 10, 14 / 10]]],
          cur_truth = [[[1, 2]], [[2, 1]]], ground_truth = [[[1, 2]], [[1, 2]]]\<rparr>"
  by (simp add: validate_def training_periods_def range_int_def train_model_def family_of_def
      validate_week_def validate_cell_def append_cell_def empty_results_def
      create_double_list_def env0_def data0_def fetch_stub_def Let_def)

lemma metrics_example:
  "r2_score env0 [1, 2] [1, 2] = Inr 1" "r2_score env0 [1, 2] [2, 1] = Inr (- 3)"
  "mean_squared_error env0 [1, 2] [1, 2] = Inr 0" "mean_squared_error env0 [1, 2] [2, 1] = Inr 1"
  "plot_series env0 = (\<lambda>path location group lw bw weeks p pu pl c t. Inr ())"
  "plot_results env0 = (\<lambda>path m name location group colormap. Inr ())"
  "make_dirs env0 = (\<lambda>path. Inr ())" "write_data env0 = (\<lambda>results path. Inr ())"
  "str_period env0 = (\<lambda>p. ''season'')"
  by (simp_all add: env0_def r2_stub_def mse_stub_def Let_def)

lemma report_example:
  "nowcast_report env0 path data0 [''CA'', ''NY''] [1] (201540, 201617) lw bw ''all'' ''lin'' =
     Inr ([[Some 1], [Some (- 3)]], [[Some 0], [Some 1]])"
  by (simp add: nowcast_report_def validate_example4 report_cell_def create_double_list_def
      set_cell_def metrics_example Let_def)

lemma create_example:
  "create_double_list_mat 0 (Suc (Suc 0)) (Suc 0) [sentinel2, sentinel2] =
     ([[2], [3]], [sentinel2, sentinel2, sentinel2, sentinel2])"
  "create_double_list_mat (Suc 0) (Suc (Suc 0)) (Suc 0)
     [sentinel2, sentinel2, sentinel2, sentinel2] =
     ([[4], [5]], [sentinel2, sentinel2, sentinel2, sentinel2, sentinel2, sentinel2])"
  by (simp_all add: create_double_list_mat_def eval_nat_numeral)

lemma fill_example:
  "fill_grid env0 path data0 [''CA'', ''NY''] [1] (201540, 201617) ''all'' ''lin''
     [[2], [3]] [[4], [5]] 1
     [sentinel2, sentinel2, sentinel2, sentinel2, sentinel2, sentinel2] = Inr heap_example"
  by (simp add: fill_grid_def fill_cell_def report_example store_cell_def heap_set_def
      to_float_def heap_example_def sentinel2_def eval_nat_numeral)

lemma amax_example:
  "amax [[Fin 1, NegInf], [Fin 1, Fin 1]] = Inr (Fin 1)"
  "amax [[Fin (- 3), NegInf], [Fin (- 3), Fin (- 3)]] = Inr (Fin (- 3))"
  by (simp_all add: amax_def)

lemma group_example:
  "experiment_group env0 path data0 (201540, 201617) 1 ''all'' ''lin'' 0 (Suc 0)
     [''CA'', ''NY''] [1] ([sentinel2, sentinel2], Map.empty) =
     Inr (heap_example, [((201540, 201617), 1) \<mapsto> Fin (- 3)])"
  by (simp add: experiment_group_def create_example fill_example summary_cell_def
      metrics_example Let_def heap_example_def amax_example)

lemma run_example:
  "run_nowcast_experiment env0 data0 [[''CA'', ''NY'']] [[1]] [(201540, 201617)] 1 ''all'' ''lin'' =
     Inr (heap_example, [((201540, 201617), 1) \<mapsto> Fin (- 3)])"
  by (simp add: run_nowcast_experiment_def np_full_def experiment_period_def metrics_example
      sentinel2_def[symmetric] eval_nat_numeral group_example Let_def)

theorem upper_triangle_stays_sentinel_witness:
  "run_nowcast_experiment env0 data0 [[''CA'', ''NY'']] [[1]] [(201540, 201617)] 1 ''all'' ''lin'' =
     Inr (heap_example, [((201540, 201617), 1) \<mapsto> Fin (- 3)]) \<and>
   heap_example ! 5 ! 0 ! 1 = NegInf \<and>
   heap_example ! 5 ! 0 ! 1 =
     [sentinel2, sentinel2, sentinel2, sentinel2, sentinel2, sentinel2] ! 5 ! 0 ! 1"
proof -
  have "\<forall>a<length heap_example. \<forall>window backfill.
      window < backfill \<longrightarrow> backfill < nat (1 + 1) \<longrightarrow>
      heap_example ! a ! window ! backfill = NegInf"
    by (rule upper_triangle_stays_sentinel[THEN conjunct2, THEN mp, OF run_example])
  then have a: "heap_example ! 5 ! 0 ! 1 = NegInf"
    by (simp add: heap_example_def)
  have "\<forall>a window backfill. \<not> (backfill \<le> window \<and> window < nat (1 + 1)) \<longrightarrow>
      heap_example ! a ! window ! backfill =
      [sentinel2, sentinel2, sentinel2, sentinel2, sentinel2, sentinel2] ! a ! window ! backfill"
    by (rule upper_triangle_stays_sentinel[THEN conjunct1, THEN mp,
          OF fill_example[of "''./nowcast/season''"]])
  then have b: "heap_example ! 5 ! 0 ! 1 =
     [sentinel2, sentinel2, sentinel2, sentinel2, sentinel2, sentinel2] ! 5 ! 0 ! 1"
    by simp
  show ?thesis using run_example a b by simp
qed

theorem each_pair_has_its_own_matrix_witness:
  "heap_example ! 0 = sentinel2 \<and> heap_example ! 1 = sentinel2 \<and>
   separate [[2], [3]] [[4], [5]] 2 1 \<and>
   cell_reported env0 ''./nowcast/season'' data0 [''CA'', ''NY''] [1] (201540, 201617)
     ''all'' ''lin'' [[2], [3]] [[4], [5]] 0 0 1 1 heap_example"
proof -
  have t1: "0 < length [sentinel2, sentinel2]" and t2: "Suc 0 < length [sentinel2, sentinel2]"
    by simp_all
  have c1: "create_double_list_mat 0 (length [''CA'', ''NY'']) (length [1::int])
      [sentinel2, sentinel2] = ([[2], [3]], [sentinel2, sentinel2, sentinel2, sentinel2])"
    by (simp add: create_example)
  have c2: "create_double_list_mat (Suc 0) (length [''CA'', ''NY'']) (length [1::int])
      [sentinel2, sentinel2, sentinel2, sentinel2] =
      ([[4], [5]], [sentinel2, sentinel2, sentinel2, sentinel2, sentinel2, sentinel2])"
    by (simp add: create_example)
  have l: "0 < length [''CA'', ''NY'']" and g: "0 < length [1::int]" by simp_all
  note t = each_pair_has_its_own_matrix[OF t1 t2 c1 c2
      fill_example[of "''./nowcast/season''"] l g]
  note sep = t[THEN conjunct2, THEN conjunct2, THEN conjunct2, THEN conjunct2, THEN conjunct1]
  note old = t[THEN conjunct2, THEN conjunct2, THEN conjunct2, THEN conjunct2, THEN conjunct2,
      THEN conjunct1]
  note rep = t[THEN conjunct2, THEN conjunct2, THEN conjunct2, THEN conjunct2, THEN conjunct2,
      THEN conjunct2, THEN conjunct1]
  have a: "heap_example ! 0 = sentinel2" using old[rule_format, of 0] by simp
  have b: "heap_example ! 1 = sentinel2" using old[rule_format, of 1] by simp
  have c: "separate [[2], [3]] [[4], [5]] 2 1" using sep by (simp add: eval_nat_numeral)
  have d: "cell_reported env0 ''./nowcast/season'' data0 [''CA'', ''NY''] [1] (201540, 201617)
     ''all'' ''lin'' [[2], [3]] [[4], [5]] 0 0 1 1 heap_example"
    using rep[rule_format, of 1 1] by simp
  show ?thesis using a b c d by (intro conjI)
qed




end
